theory Spec2Isabelle
  imports Complex_Main "HOL-Library.Sublist"
begin

section \<open>Python values\<close>

text \<open>
  The solver moves values decoded from JSON around without checking their type: the plan
  written by the language model, the grading response, the URLs taken from both. They are
  modelled by one datatype. \<open>JNull\<close> is Python's \<open>None\<close>. A float is represented by the
  rational number its decimal token denotes (Python rounds that number to the nearest
  double). Strings are lists of characters with code points below 256.
\<close>

datatype json =
    JNull
  | JBool bool
  | JInt int
  | JFloat rat
  | JStr string
  | JArr "json list"
  | JObj "(string \<times> json) list"

datatype exn = AttributeError | TypeError | ValueError | ClientError

text \<open>Truth value of a Python object in \<open>if x:\<close>.\<close>

fun truthy :: "json \<Rightarrow> bool" where
  "truthy JNull = False"
| "truthy (JBool b) = b"
| "truthy (JInt i) = (i \<noteq> 0)"
| "truthy (JFloat r) = (r \<noteq> 0)"
| "truthy (JStr s) = (s \<noteq> [])"
| "truthy (JArr xs) = (xs \<noteq> [])"
| "truthy (JObj kvs) = (kvs \<noteq> [])"

text \<open>\<open>d.get(k, default)\<close>: only a dict has the method.\<close>

fun dict_get :: "json \<Rightarrow> string \<Rightarrow> json \<Rightarrow> exn + json" where
  "dict_get (JObj kvs) k d = Inr (case map_of kvs k of None \<Rightarrow> d | Some v \<Rightarrow> v)"
| "dict_get _ k d = Inl AttributeError"

text \<open>\<open>for source in x\<close>: a list yields its elements, a string its characters, a dict
  its keys; nothing else is iterable.\<close>

fun py_iter :: "json \<Rightarrow> exn + json list" where
  "py_iter (JArr xs) = Inr xs"
| "py_iter (JStr s) = Inr (map (\<lambda>c. JStr [c]) s)"
| "py_iter (JObj kvs) = Inr (map (\<lambda>kv. JStr (fst kv)) kvs)"
| "py_iter _ = Inl TypeError"

section \<open>String operations of the Python runtime\<close>

definition is_space :: "char \<Rightarrow> bool" where
  "is_space c = (let n = (of_char c :: nat)
                 in (9 \<le> n \<and> n \<le> 13) \<or> (28 \<le> n \<and> n \<le> 32) \<or> n = 133 \<or> n = 160)"

definition is_digit :: "char \<Rightarrow> bool" where
  "is_digit c = (let n = (of_char c :: nat) in 48 \<le> n \<and> n \<le> 57)"

definition lower_char :: "char \<Rightarrow> char" where
  "lower_char c = (let n = (of_char c :: nat)
                   in if (65 \<le> n \<and> n \<le> 90) \<or> (192 \<le> n \<and> n \<le> 222 \<and> n \<noteq> 215)
                      then char_of (n + 32) else c)"

definition lower :: "string \<Rightarrow> string" where
  "lower s = map lower_char s"

definition strip :: "string \<Rightarrow> string" where
  "strip s = rev (dropWhile is_space (rev (dropWhile is_space s)))"

text \<open>\<open>sub in s\<close> on strings, as a scan over the start positions.\<close>

fun py_in :: "string \<Rightarrow> string \<Rightarrow> bool" where
  "py_in sub [] = (sub = [])"
| "py_in sub (c # cs) = (prefix sub (c # cs) \<or> py_in sub cs)"

definition startswith :: "string \<Rightarrow> string \<Rightarrow> bool" where
  "startswith s p = prefix p s"

text \<open>\<open>s.find(c)\<close> and \<open>s.rfind(c)\<close> for a single character: the index, or -1.\<close>

fun str_find :: "char \<Rightarrow> string \<Rightarrow> int" where
  "str_find c [] = -1"
| "str_find c (x # xs) =
     (if x = c then 0 else (let r = str_find c xs in if r = -1 then -1 else r + 1))"

definition str_rfind :: "char \<Rightarrow> string \<Rightarrow> int" where
  "str_rfind c s =
     (let r = str_find c (rev s) in if r = -1 then -1 else int (length s) - 1 - r)"

text \<open>\<open>s[i:j]\<close> for indices \<open>0 \<le> i\<close>, \<open>0 \<le> j\<close>, the only ones the solver produces.\<close>

definition slice :: "string \<Rightarrow> int \<Rightarrow> int \<Rightarrow> string" where
  "slice s i j = take (nat (j - i)) (drop (nat i) s)"

text \<open>\<open>s.replace(old, new)\<close>: the occurrences of \<open>old\<close> from the left, without overlap.\<close>

fun replace_str :: "string \<Rightarrow> string \<Rightarrow> string \<Rightarrow> string" where
  "replace_str old new [] = (if old = [] then new else [])"
| "replace_str old new (c # cs) =
     (if old = [] then new @ c # replace_str old new cs
      else if prefix old (c # cs) then new @ replace_str old new (drop (length old - 1) cs)
      else c # replace_str old new cs)"

subsection \<open>The numeric token\<close>

text \<open>
  \<open>re.findall(r'-?\d+\.?\d*', text)[0]\<close>: the leftmost match. A match starts at a digit,
  or at a minus sign that a digit follows; it takes the digits, then a dot if one
  follows, then the digits after the dot.
\<close>

definition num_tail :: "string \<Rightarrow> string" where
  "num_tail s =
     (let ds = takeWhile is_digit s; r = dropWhile is_digit s
      in case r of
           [] \<Rightarrow> ds
         | x # r' \<Rightarrow> if x = CHR ''.'' then ds @ CHR ''.'' # takeWhile is_digit r' else ds)"

fun first_number :: "string \<Rightarrow> string option" where
  "first_number [] = None"
| "first_number (c # cs) =
     (if is_digit c then Some (num_tail (c # cs))
      else if c = CHR ''-'' \<and> cs \<noteq> [] \<and> is_digit (hd cs) then Some (c # num_tail cs)
      else first_number cs)"

definition digits_val :: "string \<Rightarrow> nat" where
  "digits_val s = foldl (\<lambda>a c. 10 * a + (of_char c - 48)) 0 s"

text \<open>
  \<open>int(token)\<close> and \<open>float(token)\<close> on a token of the shape above. Both are taken as
  total: the limit that CPython puts on the number of digits given to \<open>int\<close> (a
  \<open>ValueError\<close>, which line 246 turns into the text answer) is not modelled.
\<close>

definition py_int :: "string \<Rightarrow> int" where
  "py_int tok =
     (if tok \<noteq> [] \<and> hd tok = CHR ''-'' then - int (digits_val (tl tok))
      else int (digits_val tok))"

definition py_float :: "string \<Rightarrow> rat" where
  "py_float tok =
     (let neg = (tok \<noteq> [] \<and> hd tok = CHR ''-'');
          body = (if neg then tl tok else tok);
          ip = takeWhile (\<lambda>c. c \<noteq> CHR ''.'') body;
          fp = drop 1 (dropWhile (\<lambda>c. c \<noteq> CHR ''.'') body);
          v = of_nat (digits_val ip) + of_nat (digits_val fp) / 10 ^ length fp
      in if neg then - v else v)"

section \<open>Acquired data and the chart collaborator\<close>

text \<open>
  What \<open>DataProcessor.fetch_and_process\<close> returns: a record tagged with its kind, or the
  response text when the content type is unknown. A frame is the result of
  \<open>DataFrame.to_dict()\<close>: for each column, the cells by row label.
\<close>

type_synonym frame = "(string \<times> (int \<times> json) list) list"

datatype datum =
    Pdf string "frame list"
  | Csv frame
  | JsonData json
  | Excel "(string \<times> frame) list"
  | Html string "frame list"
  | RawText string

fun datum_truthy :: "datum \<Rightarrow> bool" where
  "datum_truthy (RawText s) = (s \<noteq> [])"
| "datum_truthy _ = True"

text \<open>\<open>len(pd.DataFrame(d))\<close>: the number of distinct row labels.\<close>

definition frame_len :: "frame \<Rightarrow> nat" where
  "frame_len d = length (remdups (concat (map (\<lambda>col. map fst (snd col)) d)))"

datatype chart_data = Frame frame | Dict "(string \<times> json) list"

datatype chart_type = Bar | Line | Pie

text \<open>
  The loop of \<open>prepare_chart_data\<close>. A raw-text datum has no \<open>get\<close> method, so looking
  at its type raises.
\<close>

fun scan_items :: "datum list \<Rightarrow> exn + chart_data option" where
  "scan_items [] = Inr None"
| "scan_items (Csv df_dict # rest) =
     (if df_dict \<noteq> [] \<and> frame_len df_dict > 0 then Inr (Some (Frame df_dict))
      else scan_items rest)"
| "scan_items (Excel sheets # rest) =
     (case sheets of
        [] \<Rightarrow> scan_items rest
      | first_sheet # _ \<Rightarrow>
          (if snd first_sheet \<noteq> [] \<and> frame_len (snd first_sheet) > 0
           then Inr (Some (Frame (snd first_sheet)))
           else scan_items rest))"
| "scan_items (JsonData json_data # rest) =
     (case json_data of JObj kvs \<Rightarrow> Inr (Some (Dict kvs)) | _ \<Rightarrow> scan_items rest)"
| "scan_items (RawText s # rest) = Inl AttributeError"
| "scan_items (_ # rest) = scan_items rest"

definition prepare_chart_data :: "datum list \<Rightarrow> string \<Rightarrow> chart_data option" where
  "prepare_chart_data downloaded_data answer_text =
     (if downloaded_data = [] then None
      else case scan_items downloaded_data of Inl _ \<Rightarrow> None | Inr r \<Rightarrow> r)"

definition determine_chart_type :: "string \<Rightarrow> chart_type" where
  "determine_chart_type answer_text =
     (let lower_text = lower answer_text
      in if py_in ''pie'' lower_text then Pie
         else if py_in ''line'' lower_text \<or> py_in ''trend'' lower_text \<or> py_in ''time'' lower_text
         then Line
         else Bar)"

text \<open>\<open>x[:50]\<close>: a string or a list can be sliced, nothing else among JSON values.\<close>

fun slice50 :: "json \<Rightarrow> exn + json" where
  "slice50 (JStr s) = Inr (JStr (take 50 s))"
| "slice50 (JArr xs) = Inr (JArr (take 50 xs))"
| "slice50 _ = Inl TypeError"

section \<open>The world outside the solver\<close>

text \<open>
  Every call that leaves the process is a field of the environment. The calls of one
  chain are told apart by the number of the step that makes them (and, for the data
  sources of a step, by their position), so that an environment can answer the same
  request differently at different times. \<open>None\<close> or \<open>Inl\<close> stands for a raised exception
  unless said otherwise. The prompts sent to the language model only influence its reply
  and are not modelled.
\<close>

record parsed_url =
  scheme :: string
  netloc :: string

datatype site = PlanSite | AnswerSite

record env =
  now :: "nat \<Rightarrow> real"
  page_content :: "nat \<Rightarrow> json \<Rightarrow> string option"
  requests_get :: "nat \<Rightarrow> json \<Rightarrow> (nat \<times> string) option"
  chat :: "nat \<Rightarrow> site \<Rightarrow> exn + string option"
  fetch_and_process :: "nat \<Rightarrow> nat \<Rightarrow> json \<Rightarrow> datum option"
  requests_post :: "nat \<Rightarrow> json \<Rightarrow> json \<Rightarrow> json \<Rightarrow> (nat \<times> json option) option"
  json_loads :: "string \<Rightarrow> json option"
  urlparse :: "json \<Rightarrow> parsed_url option"
  urljoin :: "json \<Rightarrow> string \<Rightarrow> string option"
  render :: "chart_data \<Rightarrow> chart_type \<Rightarrow> json \<Rightarrow> string option"

text \<open>
  \<open>now e k\<close> is the k-th reading of \<open>time.time()\<close>, reading 0 being the start time.
  \<open>chat e n site\<close> is the content of the first choice of the completion, which may be
  \<open>None\<close>. \<open>fetch_and_process\<close> catches its own exceptions and returns \<open>None\<close> then.
  \<open>requests_post\<close> gives the status and the decoded body (\<open>None\<close>: the body is not JSON).
  \<open>render\<close> is the drawing, saving and base64 encoding inside \<open>Visualizer.create_chart\<close>.
\<close>

text \<open>
  The calls that leave the process are recorded, each with the number of the step that
  makes it. The source keeps no such list; it is there to state which calls a run makes.
\<close>

datatype call =
    Browser nat json
  | HttpGet nat json
  | PlanLLM nat
  | DataFetch nat nat json
  | AnswerLLM nat
  | Submit nat json

fun call_step :: "call \<Rightarrow> nat" where
  "call_step (Browser n u) = n"
| "call_step (HttpGet n u) = n"
| "call_step (PlanLLM n) = n"
| "call_step (DataFetch n i s) = n"
| "call_step (AnswerLLM n) = n"
| "call_step (Submit n u) = n"

definition create_chart :: "env \<Rightarrow> chart_data \<Rightarrow> chart_type \<Rightarrow> json \<Rightarrow> string option" where
  "create_chart e data ct title =
     (case render e data ct title of
        None \<Rightarrow> None
      | Some image_base64 \<Rightarrow> Some (''data:image/png;base64,'' @ image_base64))"

section \<open>Answer resolver\<close>

definition placeholder :: string where
  "placeholder = ''current-page-url''"

text \<open>Lines 238 to 282 of \<open>execute_solution_plan\<close>: the coercion by declared shape.\<close>

definition chart_answer :: "env \<Rightarrow> json \<Rightarrow> datum list \<Rightarrow> string \<Rightarrow> json" where
  "chart_answer e plan downloaded_data answer_text =
     (case prepare_chart_data downloaded_data answer_text of
        None \<Rightarrow> JStr answer_text
      | Some chart_data \<Rightarrow>
          (case dict_get plan ''question'' (JStr ''Chart'') of
             Inl _ \<Rightarrow> JStr answer_text
           | Inr q \<Rightarrow>
              (case slice50 q of
                 Inl _ \<Rightarrow> JStr answer_text
               | Inr title \<Rightarrow>
                  (case create_chart e chart_data (determine_chart_type answer_text) title of
                     None \<Rightarrow> JStr answer_text
                   | Some base64_chart \<Rightarrow>
                       if base64_chart \<noteq> [] then JStr base64_chart else JStr answer_text))))"

definition json_answer :: "env \<Rightarrow> string \<Rightarrow> json" where
  "json_answer e answer_text =
     (let start_idx = str_find CHR ''{'' answer_text;
          end_idx = str_rfind CHR ''}'' answer_text + 1
      in if start_idx \<noteq> -1 \<and> end_idx > start_idx
         then (case json_loads e (slice answer_text start_idx end_idx) of
                 None \<Rightarrow> JStr answer_text
               | Some v \<Rightarrow> v)
         else JStr answer_text)"

definition number_answer :: "string \<Rightarrow> json" where
  "number_answer answer_text =
     (case first_number answer_text of
        Some tok \<Rightarrow> if CHR ''.'' \<in> set tok then JFloat (py_float tok) else JInt (py_int tok)
      | None \<Rightarrow> JStr answer_text)"

definition coerce_answer :: "env \<Rightarrow> json \<Rightarrow> datum list \<Rightarrow> json \<Rightarrow> string \<Rightarrow> exn + json" where
  "coerce_answer e plan downloaded_data answer_format answer_text =
     (if answer_format = JStr ''number'' then Inr (number_answer answer_text)
      else if answer_format = JStr ''boolean'' then
        (let lower_text = lower answer_text
         in Inr (JBool (py_in ''true'' lower_text \<or> py_in ''yes'' lower_text)))
      else if answer_format = JStr ''json'' then Inr (json_answer e answer_text)
      else (case answer_format of
              JStr f \<Rightarrow>
                if f = ''base64_image'' \<or> py_in ''chart'' (lower f) \<or> py_in ''visualization'' (lower f)
                then Inr (chart_answer e plan downloaded_data answer_text)
                else Inr (JStr answer_text)
            | _ \<Rightarrow> Inl AttributeError))"

text \<open>The loop over the data sources: a result that is \<open>None\<close> or empty is dropped.\<close>

fun download :: "env \<Rightarrow> nat \<Rightarrow> nat \<Rightarrow> json list \<Rightarrow> datum list" where
  "download e n i [] = []"
| "download e n i (source # rest) =
     (case fetch_and_process e n i source of
        None \<Rightarrow> download e n (Suc i) rest
      | Some d \<Rightarrow> if datum_truthy d then d # download e n (Suc i) rest
                  else download e n (Suc i) rest)"

fun download_calls :: "nat \<Rightarrow> nat \<Rightarrow> json list \<Rightarrow> call list" where
  "download_calls n i [] = []"
| "download_calls n i (source # rest) = DataFetch n i source # download_calls n (Suc i) rest"

text \<open>
  The body of the outer \<open>try\<close> of \<open>execute_solution_plan\<close>, with the calls it made; then
  the function itself, which turns every exception into \<open>None\<close>.
\<close>

definition execute_body :: "env \<Rightarrow> nat \<Rightarrow> json \<Rightarrow> json \<Rightarrow> call list \<times> (exn + json option)" where
  "execute_body e n plan quiz_url =
     (case dict_get plan ''data_sources'' (JArr []) of
        Inl x \<Rightarrow> ([], Inl x)
      | Inr data_sources \<Rightarrow>
         (case dict_get plan ''answer_format'' (JStr ''string'') of
            Inl x \<Rightarrow> ([], Inl x)
          | Inr answer_format \<Rightarrow>
             (case py_iter data_sources of
                Inl x \<Rightarrow> ([], Inl x)
              | Inr sources \<Rightarrow>
                 (let downloaded_data = download e n 0 sources;
                      cs = download_calls n 0 sources @ [AnswerLLM n]
                  in case chat e n AnswerSite of
                       Inl x \<Rightarrow> (cs, Inl x)
                     | Inr None \<Rightarrow> (cs, Inr None)
                     | Inr (Some answer_content) \<Rightarrow>
                         if answer_content = [] then (cs, Inr None)
                         else (case coerce_answer e plan downloaded_data answer_format
                                      (strip answer_content) of
                                 Inl x \<Rightarrow> (cs, Inl x)
                               | Inr v \<Rightarrow> (cs, Inr (Some v)))))))"

definition execute_solution_plan :: "env \<Rightarrow> nat \<Rightarrow> json \<Rightarrow> json \<Rightarrow> call list \<times> json option" where
  "execute_solution_plan e n plan quiz_url =
     (case execute_body e n plan quiz_url of
        (cs, Inl _) \<Rightarrow> (cs, None)
      | (cs, Inr r) \<Rightarrow> (cs, r))"

section \<open>Content fetcher and submission client\<close>

definition fetch_quiz_page :: "env \<Rightarrow> nat \<Rightarrow> json \<Rightarrow> call list \<times> string option" where
  "fetch_quiz_page e n url =
     (case page_content e n url of
        Some content \<Rightarrow> ([Browser n url], Some content)
      | None \<Rightarrow>
         (case requests_get e n url of
            None \<Rightarrow> ([Browser n url, HttpGet n url], None)
          | Some (status_code, text) \<Rightarrow>
              if status_code = 200 then ([Browser n url, HttpGet n url], Some text)
              else ([Browser n url, HttpGet n url], None)))"

text \<open>\<open>submit_answer\<close>: the decoded body on status 200, otherwise \<open>None\<close>.\<close>

definition submit_answer :: "env \<Rightarrow> nat \<Rightarrow> json \<Rightarrow> json \<Rightarrow> json \<Rightarrow> json" where
  "submit_answer e n submit_url quiz_url answer =
     (case requests_post e n submit_url quiz_url answer of
        None \<Rightarrow> JNull
      | Some (status_code, body) \<Rightarrow>
          if status_code = 200 then (case body of None \<Rightarrow> JNull | Some j \<Rightarrow> j)
          else JNull)"

section \<open>Plan extractor\<close>

text \<open>Lines 160 to 168 of \<open>analyze_and_solve\<close>: the plan from the model's text.\<close>

definition parse_plan :: "env \<Rightarrow> string \<Rightarrow> exn + json" where
  "parse_plan e analysis =
     (case json_loads e analysis of
        Some plan \<Rightarrow> Inr plan
      | None \<Rightarrow>
         (let start_idx = str_find CHR ''{'' analysis;
              end_idx = str_rfind CHR ''}'' analysis + 1
          in if start_idx \<noteq> -1 \<and> end_idx > start_idx
             then (case json_loads e (slice analysis start_idx end_idx) of
                     None \<Rightarrow> Inl ValueError
                   | Some plan \<Rightarrow> Inr plan)
             else Inr (JObj [(''error'', JStr ''Could not parse JSON'')])))"

text \<open>
  Lines 172 to 185: the repair of the submit URL. A value that is not a string and not
  empty has no \<open>startswith\<close> method (or cannot be searched for a string), which raises.
\<close>

definition repair_submit_url :: "env \<Rightarrow> json \<Rightarrow> json \<Rightarrow> exn + json" where
  "repair_submit_url e quiz_url submit_url =
     (if \<not> truthy submit_url then Inr submit_url
      else case submit_url of
        JStr s \<Rightarrow>
          if py_in placeholder s \<or> \<not> startswith s ''http'' then
            (if startswith s ''/'' then
               (case urlparse e quiz_url of
                  None \<Rightarrow> Inl ValueError
                | Some parsed \<Rightarrow> Inr (JStr (scheme parsed @ ''://'' @ netloc parsed @ s)))
             else if py_in placeholder s then
               (case urlparse e quiz_url of
                  None \<Rightarrow> Inl ValueError
                | Some parsed \<Rightarrow>
                   (let s' = replace_str placeholder (netloc parsed) s
                    in if \<not> startswith s' ''http''
                       then Inr (JStr (scheme parsed @ ''://'' @ s'))
                       else Inr (JStr s')))
             else
               (case urljoin e quiz_url s of
                  None \<Rightarrow> Inl ValueError
                | Some joined \<Rightarrow> Inr (JStr joined)))
          else Inr (JStr s)
      | _ \<Rightarrow> Inl TypeError)"

record solution =
  submit_url :: json
  answer :: json

definition analyze_and_solve ::
    "env \<Rightarrow> nat \<Rightarrow> string \<Rightarrow> json \<Rightarrow> call list \<times> solution option" where
  "analyze_and_solve e n quiz_content quiz_url =
     (case chat e n PlanSite of
        Inl _ \<Rightarrow> ([PlanLLM n], None)
      | Inr None \<Rightarrow> ([PlanLLM n], None)
      | Inr (Some analysis) \<Rightarrow>
          if analysis = [] then ([PlanLLM n], None)
          else (case parse_plan e analysis of
                  Inl _ \<Rightarrow> ([PlanLLM n], None)
                | Inr plan \<Rightarrow>
                   (case execute_solution_plan e n plan quiz_url of
                      (cs, r) \<Rightarrow>
                        (case dict_get plan ''submit_url'' (JStr []) of
                           Inl _ \<Rightarrow> (PlanLLM n # cs, None)
                         | Inr raw_url \<Rightarrow>
                            (case repair_submit_url e quiz_url raw_url of
                               Inl _ \<Rightarrow> (PlanLLM n # cs, None)
                             | Inr repaired \<Rightarrow>
                                 (PlanLLM n # cs,
                                  Some \<lparr>submit_url = repaired,
                                        answer = (case r of None \<Rightarrow> JNull | Some v \<Rightarrow> v)\<rparr>))))))"

section \<open>Chain controller\<close>

text \<open>Lines 79 to 88: what the step returns for a grading response.\<close>

definition next_of_response :: "json \<Rightarrow> exn + json" where
  "next_of_response response =
     (if truthy response then
        (case dict_get response ''correct'' JNull of
           Inl x \<Rightarrow> Inl x
         | Inr correct \<Rightarrow>
            (case dict_get response ''url'' JNull of
               Inl x \<Rightarrow> Inl x
             | Inr url \<Rightarrow>
                 if truthy correct then Inr url
                 else if truthy url then Inr url
                 else Inr JNull))
      else Inr JNull)"

definition solve_single_quiz :: "env \<Rightarrow> nat \<Rightarrow> json \<Rightarrow> call list \<times> (exn + json)" where
  "solve_single_quiz e n quiz_url =
     (case fetch_quiz_page e n quiz_url of
        (c1, None) \<Rightarrow> (c1, Inr JNull)
      | (c1, Some quiz_content) \<Rightarrow>
          if quiz_content = [] then (c1, Inr JNull)
          else (case analyze_and_solve e n quiz_content quiz_url of
                  (c2, None) \<Rightarrow> (c1 @ c2, Inr JNull)
                | (c2, Some sol) \<Rightarrow>
                    if \<not> truthy (submit_url sol) then (c1 @ c2, Inr JNull)
                    else (c1 @ c2 @ [Submit n (submit_url sol)],
                          next_of_response
                            (submit_answer e n (submit_url sol) quiz_url (answer sol)))))"

datatype stop_reason = NoUrl | StepLimitReached | TimeLimitReached | Completed | Failed

record chain_result =
  quiz_count :: nat
  stop :: stop_reason
  calls :: "call list"

definition max_quizzes :: nat where
  "max_quizzes = 20"

text \<open>
  The \<open>while\<close> loop of \<open>solve_quiz_chain\<close>, from the state it is in before an iteration.
  The source names no stop reasons; each exit of the loop gets one here: the loop
  condition failing (\<open>NoUrl\<close>, \<open>StepLimitReached\<close>), the time check (\<open>TimeLimitReached\<close>),
  the \<open>break\<close> after a step without next URL (\<open>Completed\<close>), the \<open>except\<close> clause (\<open>Failed\<close>).
\<close>

function chain_loop :: "env \<Rightarrow> json \<Rightarrow> nat \<Rightarrow> call list \<Rightarrow> chain_result" where
  "chain_loop e current_url count tr =
     (if truthy current_url \<and> count < max_quizzes then
        (if now e (Suc count) - now e 0 > 170
         then \<lparr>quiz_count = count, stop = TimeLimitReached, calls = tr\<rparr>
         else (case solve_single_quiz e (Suc count) current_url of
                 (cs, Inl _) \<Rightarrow> \<lparr>quiz_count = Suc count, stop = Failed, calls = tr @ cs\<rparr>
               | (cs, Inr next_url) \<Rightarrow>
                   if truthy next_url then chain_loop e next_url (Suc count) (tr @ cs)
                   else \<lparr>quiz_count = Suc count, stop = Completed, calls = tr @ cs\<rparr>))
      else \<lparr>quiz_count = count,
            stop = (if truthy current_url then StepLimitReached else NoUrl),
            calls = tr\<rparr>)"
  by pat_completeness auto
termination
  by (relation "measure (\<lambda>(e, u, count, tr). max_quizzes - count)") auto

declare chain_loop.simps [simp del]

definition solve_quiz_chain :: "env \<Rightarrow> json \<Rightarrow> chain_result" where
  "solve_quiz_chain e initial_url = chain_loop e initial_url 0 []"

section \<open>Notions used to state the properties\<close>

fun is_obj :: "json \<Rightarrow> bool" where
  "is_obj (JObj kvs) = True"
| "is_obj _ = False"

fun is_str :: "json \<Rightarrow> bool" where
  "is_str (JStr s) = True"
| "is_str _ = False"

fun iterable :: "json \<Rightarrow> bool" where
  "iterable (JArr xs) = True"
| "iterable (JStr s) = True"
| "iterable (JObj kvs) = True"
| "iterable _ = False"

text \<open>A field of a dict, with the default that \<open>get\<close> is given in the source.\<close>

definition field :: "json \<Rightarrow> string \<Rightarrow> json \<Rightarrow> json" where
  "field j k d = (case dict_get j k d of Inl _ \<Rightarrow> d | Inr v \<Rightarrow> v)"

definition plan_sources :: "json \<Rightarrow> json list" where
  "plan_sources plan =
     (case py_iter (field plan ''data_sources'' (JArr [])) of Inl _ \<Rightarrow> [] | Inr xs \<Rightarrow> xs)"

definition plan_format :: "json \<Rightarrow> json" where
  "plan_format plan = field plan ''answer_format'' (JStr ''string'')"

text \<open>A plan on which the resolver raises nothing by itself: a dict whose data sources
  can be iterated and whose declared shape is a string.\<close>

definition well_formed_plan :: "json \<Rightarrow> bool" where
  "well_formed_plan plan =
     (is_obj plan \<and> iterable (field plan ''data_sources'' (JArr [])) \<and> is_str (plan_format plan))"

text \<open>The model's reply to the answer request of step \<open>n\<close> is the non-empty text \<open>c\<close>.\<close>

definition replies :: "env \<Rightarrow> nat \<Rightarrow> string \<Rightarrow> bool" where
  "replies e n c = (chat e n AnswerSite = Inr (Some c) \<and> c \<noteq> [])"

text \<open>No reply: the client raised, or the content is \<open>None\<close> or empty.\<close>

definition no_reply :: "env \<Rightarrow> nat \<Rightarrow> bool" where
  "no_reply e n =
     (case chat e n AnswerSite of Inl _ \<Rightarrow> True | Inr None \<Rightarrow> True | Inr (Some c) \<Rightarrow> c = [])"

definition chart_shape :: "string \<Rightarrow> bool" where
  "chart_shape f =
     (f = ''base64_image'' \<or> sublist ''chart'' (lower f) \<or> sublist ''visualization'' (lower f))"

text \<open>A numeric token is a string of the language \<open>-?\d+\.?\d*\<close>.\<close>

definition numeric_token :: "string \<Rightarrow> bool" where
  "numeric_token tok =
     (\<exists>sg ds dot fs. tok = sg @ ds @ dot @ fs \<and> (sg = [] \<or> sg = ''-'') \<and>
        ds \<noteq> [] \<and> (\<forall>c \<in> set ds. is_digit c) \<and> (dot = [] \<or> dot = ''.'') \<and>
        (\<forall>c \<in> set fs. is_digit c))"

definition has_numeric_token :: "string \<Rightarrow> bool" where
  "has_numeric_token s = (\<exists>tok. numeric_token tok \<and> sublist tok s)"

text \<open>The shape-specific failures: no numeric token, no braces or unparsable JSON, no
  usable chart data, no title, no chart.\<close>

definition no_json_found :: "env \<Rightarrow> string \<Rightarrow> bool" where
  "no_json_found e t =
     (CHR ''{'' \<notin> set t \<or> str_rfind CHR ''}'' t + 1 \<le> str_find CHR ''{'' t \<or>
      json_loads e (slice t (str_find CHR ''{'' t) (str_rfind CHR ''}'' t + 1)) = None)"

definition no_chart_made :: "env \<Rightarrow> json \<Rightarrow> datum list \<Rightarrow> string \<Rightarrow> bool" where
  "no_chart_made e plan dl t =
     (case prepare_chart_data dl t of
        None \<Rightarrow> True
      | Some d \<Rightarrow>
         (case slice50 (field plan ''question'' (JStr ''Chart'')) of
            Inl _ \<Rightarrow> True
          | Inr title \<Rightarrow> create_chart e d (determine_chart_type t) title = None))"

definition coercion_failed :: "env \<Rightarrow> json \<Rightarrow> datum list \<Rightarrow> string \<Rightarrow> string \<Rightarrow> bool" where
  "coercion_failed e plan dl f t =
     ((f = ''number'' \<and> \<not> has_numeric_token t) \<or>
      (f = ''json'' \<and> no_json_found e t) \<or>
      (chart_shape f \<and> no_chart_made e plan dl t))"

text \<open>What one datum offers to the chart, which is data that is not empty, and the
  first offer in list order.\<close>

fun usable :: "datum \<Rightarrow> chart_data option" where
  "usable (Csv f) = (if frame_len f > 0 then Some (Frame f) else None)"
| "usable (Excel sheets) =
     (case sheets of
        [] \<Rightarrow> None
      | first_sheet # _ \<Rightarrow>
          if frame_len (snd first_sheet) > 0 then Some (Frame (snd first_sheet)) else None)"
| "usable (JsonData j) =
     (case j of JObj kvs \<Rightarrow> if kvs \<noteq> [] then Some (Dict kvs) else None | _ \<Rightarrow> None)"
| "usable _ = None"

fun first_usable :: "datum list \<Rightarrow> chart_data option" where
  "first_usable [] = None"
| "first_usable (d # ds) = (case usable d of None \<Rightarrow> first_usable ds | Some x \<Rightarrow> Some x)"

fun is_raw :: "datum \<Rightarrow> bool" where
  "is_raw (RawText s) = True"
| "is_raw _ = False"

fun is_empty_dict :: "datum \<Rightarrow> bool" where
  "is_empty_dict (JsonData j) = (j = JObj [])"
| "is_empty_dict _ = False"

text \<open>
  Every step of the chain comes back with a next URL: the step made at the current URL
  does, and so does every step made at the URL that the step before it returned, up to
  the step limit. Only the steps of this chain are looked at. Then: the time checks of
  a whole chain all pass.
\<close>

function own_steps_next :: "env \<Rightarrow> json \<Rightarrow> nat \<Rightarrow> bool" where
  "own_steps_next e u n =
     (if n < max_quizzes then
        (case solve_single_quiz e (Suc n) u of
           (cs, Inl x) \<Rightarrow> False
         | (cs, Inr v) \<Rightarrow> truthy v \<and> own_steps_next e v (Suc n))
      else True)"
  by pat_completeness auto
termination
  by (relation "measure (\<lambda>(e, u, n). max_quizzes - n)") auto

declare own_steps_next.simps [simp del]

definition within_budget :: "env \<Rightarrow> bool" where
  "within_budget e = (\<forall>n < max_quizzes. \<not> now e (Suc n) - now e 0 > 170)"

text \<open>What holds of a run of the loop that starts with the counter at \<open>n\<close>: the
  counter does not go down, it stays within the maximum, and the calls carry step
  numbers that do not decrease and lie between 1 and the final counter.\<close>

definition run_ok :: "nat \<Rightarrow> chain_result \<Rightarrow> bool" where
  "run_ok n r = (n \<le> quiz_count r \<and> (n \<le> max_quizzes \<longrightarrow> quiz_count r \<le> max_quizzes) \<and>
      sorted (map call_step (calls r)) \<and>
      (\<forall>c \<in> set (calls r). 1 \<le> call_step c \<and> call_step c \<le> quiz_count r))"

section \<open>Sample environments\<close>

text \<open>
  A quiz server at \<open>quiz.example\<close>: the page loads in the browser, the model answers the
  plan request with a text that decodes to the given plan and the answer request with
  the given reply, and the grader returns the given response. The clock advances one
  second per reading. \<open>sample_urlparse\<close> splits a URL of the form \<open>scheme://netloc/path\<close>.
\<close>

definition sample_urlparse :: "json \<Rightarrow> parsed_url option" where
  "sample_urlparse u =
     (case u of
        JStr s \<Rightarrow>
          Some \<lparr>scheme = takeWhile (\<lambda>c. c \<noteq> CHR '':'') s,
                netloc = takeWhile (\<lambda>c. c \<noteq> CHR ''/'')
                           (drop 3 (dropWhile (\<lambda>c. c \<noteq> CHR '':'') s))\<rparr>
      | _ \<Rightarrow> None)"

definition sample_plan :: "string \<Rightarrow> string \<Rightarrow> json" where
  "sample_plan f target =
     JObj [(''question'', JStr ''How many rows are there?''),
           (''data_sources'', JArr [JStr ''https://quiz.example/data.csv'']),
           (''analysis_needed'', JStr ''count the rows''),
           (''submit_url'', JStr target),
           (''answer_format'', JStr f)]"

definition sample_frame :: frame where
  "sample_frame = [(''rows'', [(0, JInt 5), (1, JInt 7)])]"

definition sample_env :: "json \<Rightarrow> string \<Rightarrow> json \<Rightarrow> env" where
  "sample_env plan reply grading =
     \<lparr>now = (\<lambda>k. real k),
      page_content = (\<lambda>n u. Some ''<html>quiz</html>''),
      requests_get = (\<lambda>n u. None),
      chat = (\<lambda>n s. case s of PlanSite \<Rightarrow> Inr (Some ''{plan}'') | AnswerSite \<Rightarrow> Inr (Some reply)),
      fetch_and_process = (\<lambda>n i s. Some (Csv sample_frame)),
      requests_post = (\<lambda>n u q a. Some (200, Some grading)),
      json_loads = (\<lambda>s. if s = ''{plan}'' then Some plan else None),
      urlparse = sample_urlparse,
      urljoin = (\<lambda>u s. None),
      render = (\<lambda>d t title. None)\<rparr>"

definition grading_next :: json where
  "grading_next =
     JObj [(''correct'', JBool False), (''reason'', JStr ''wrong''),
           (''url'', JStr ''https://quiz.example/next'')]"

definition grading_last :: json where
  "grading_last = JObj [(''correct'', JBool True)]"

definition steady_env :: env where
  "steady_env =
     sample_env (sample_plan ''number'' ''https://quiz.example/submit'') ''The answer is 42''
       grading_next"

definition slow_env :: env where
  "slow_env = steady_env\<lparr>now := (\<lambda>k. 100 * real k)\<rparr>"

definition final_env :: env where
  "final_env =
     sample_env (sample_plan ''number'' ''https://quiz.example/submit'') ''The answer is 42''
       grading_last"

text \<open>The same chain on a server that serves only its own two quiz pages: every other
  page fails to load in the browser and over plain HTTP.\<close>

definition picky_env :: env where
  "picky_env =
     steady_env\<lparr>page_content :=
       (\<lambda>n u. if u = JStr ''https://quiz.example/demo'' \<or> u = JStr ''https://quiz.example/next''
              then Some ''<html>quiz</html>'' else None)\<rparr>"

text \<open>A plan whose declared shape is \<open>null\<close>, and the environment in which the model
  writes it and then replies \<open>42\<close>.\<close>

definition null_shape_plan :: json where
  "null_shape_plan =
     JObj [(''question'', JStr ''How many rows are there?''),
           (''data_sources'', JArr [JStr ''https://quiz.example/data.csv'']),
           (''analysis_needed'', JStr ''count the rows''),
           (''submit_url'', JStr ''https://quiz.example/submit''),
           (''answer_format'', JNull)]"

definition null_shape_env :: env where
  "null_shape_env = sample_env null_shape_plan ''42'' grading_next"

text \<open>The environment in which the plan declares shape \<open>f\<close> and the model replies \<open>r\<close>.\<close>

definition asked :: "string \<Rightarrow> string \<Rightarrow> env" where
  "asked f r = sample_env (sample_plan f ''/submit'') r grading_next"

definition quiz1 :: json where
  "quiz1 = JStr ''https://quiz.example/demo''"

section \<open>Facts about the string operations\<close>

lemma py_in_sublist: "py_in sub s \<longleftrightarrow> sublist sub s"
  by (induction s) (auto simp: sublist_Cons_right)

lemma sublist_skip_head: "x \<notin> set t \<Longrightarrow> t \<noteq> [] \<Longrightarrow> sublist t (x # ys) \<longleftrightarrow> sublist t ys"
  by (cases t) (auto simp: sublist_Cons_right)

lemma sublist_skip_front:
  "set a \<inter> set t = {} \<Longrightarrow> t \<noteq> [] \<Longrightarrow> sublist t (a @ m) \<longleftrightarrow> sublist t m"
  by (induction a) (auto simp: sublist_skip_head)

lemma sublist_skip_back:
  assumes "set b \<inter> set t = {}" and "t \<noteq> []"
  shows "sublist t (m @ b) \<longleftrightarrow> sublist t m"
proof -
  have "sublist t (m @ b) \<longleftrightarrow> sublist (rev t) (rev b @ rev m)"
    by (metis rev_append sublist_rev)
  also have "\<dots> \<longleftrightarrow> sublist (rev t) (rev m)"
    using assms by (intro sublist_skip_front) auto
  finally show ?thesis by simp
qed

lemma strip_decomp:
  "\<exists>a b. s = a @ strip s @ b \<and> (\<forall>x \<in> set a. is_space x) \<and> (\<forall>x \<in> set b. is_space x)"
proof -
  let ?d = "dropWhile is_space s"
  have 1: "s = takeWhile is_space s @ ?d" by simp
  have "rev (takeWhile is_space (rev ?d) @ dropWhile is_space (rev ?d)) = ?d"
    by (simp only: takeWhile_dropWhile_id rev_rev_ident)
  then have 2: "?d = strip s @ rev (takeWhile is_space (rev ?d))"
    by (simp only: rev_append strip_def)
  have 3: "\<forall>x \<in> set (takeWhile is_space s). is_space x" by (auto dest: set_takeWhileD)
  have 4: "\<forall>x \<in> set (rev (takeWhile is_space (rev ?d))). is_space x" by (auto dest: set_takeWhileD)
  from 1 2 have "s = takeWhile is_space s @ strip s @ rev (takeWhile is_space (rev ?d))" by metis
  with 3 4 show ?thesis by blast
qed

lemma strip_subset: "set (strip s) \<subseteq> set s"
proof -
  obtain a b where "s = a @ strip s @ b" using strip_decomp by blast
  then have "set s = set a \<union> set (strip s) \<union> set b" by (metis set_append sup_assoc)
  then show ?thesis by blast
qed

lemma lower_char_space: "is_space x \<Longrightarrow> lower_char x = x"
  by (auto simp: is_space_def lower_char_def Let_def)

lemma lower_spaces: "\<forall>x \<in> set a. is_space x \<Longrightarrow> lower a = a"
  by (induction a) (auto simp: lower_def lower_char_space)

lemma sublist_lower_strip:
  assumes "t \<noteq> []" and "\<forall>x \<in> set t. \<not> is_space x"
  shows "sublist t (lower (strip s)) \<longleftrightarrow> sublist t (lower s)"
proof -
  obtain a b where s: "s = a @ strip s @ b" and a: "\<forall>x \<in> set a. is_space x"
    and b: "\<forall>x \<in> set b. is_space x"
    using strip_decomp by blast
  have "lower s = lower a @ lower (strip s) @ lower b"
    by (subst s) (simp add: lower_def)
  then have "lower s = a @ lower (strip s) @ b"
    using a b by (simp add: lower_spaces)
  moreover have "set a \<inter> set t = {}" "set b \<inter> set t = {}" using a b assms(2) by auto
  ultimately show ?thesis
    using assms(1) by (simp add: sublist_skip_front sublist_skip_back)
qed

lemma str_find_absent: "str_find c s = -1 \<longleftrightarrow> c \<notin> set s"
proof (induction s)
  case (Cons x xs)
  have "str_find c xs \<ge> -1" for xs by (induction xs) (auto simp: Let_def)
  from this [of xs] Cons show ?case by (auto simp: Let_def)
qed simp

subsection \<open>The scan for the numeric token finds a token exactly when there is one\<close>

lemma first_number_None: "first_number s = None \<longleftrightarrow> (\<forall>c \<in> set s. \<not> is_digit c)"
proof (induction s)
  case Nil
  then show ?case by simp
next
  case (Cons c cs)
  show ?case
  proof (cases "c = CHR ''-'' \<and> cs \<noteq> [] \<and> is_digit (hd cs)")
    case True
    then have "hd cs \<in> set cs" by simp
    with True show ?thesis by auto
  next
    case False
    with Cons show ?thesis by auto
  qed
qed

lemma has_numeric_token_iff: "has_numeric_token s \<longleftrightarrow> (\<exists>c \<in> set s. is_digit c)"
proof
  assume "has_numeric_token s"
  then obtain tok sg ds dot fs where tok: "tok = sg @ ds @ dot @ fs" and ds: "ds \<noteq> []"
    "\<forall>c \<in> set ds. is_digit c" and sub: "sublist tok s"
    unfolding has_numeric_token_def numeric_token_def by blast
  from ds(1) have "hd ds \<in> set tok" by (simp add: tok)
  moreover from sub have "set tok \<subseteq> set s" by (rule set_mono_sublist)
  moreover from ds have "is_digit (hd ds)" by simp
  ultimately show "\<exists>c \<in> set s. is_digit c" by blast
next
  assume "\<exists>c \<in> set s. is_digit c"
  then obtain c where c: "c \<in> set s" "is_digit c" by blast
  have "numeric_token [c]"
    unfolding numeric_token_def
    by (rule exI [of _ "[]"], rule exI [of _ "[c]"], rule exI [of _ "[]"], rule exI [of _ "[]"])
       (simp add: c)
  moreover from c(1) obtain ps ss where "s = ps @ [c] @ ss" by (auto dest: split_list)
  then have "sublist [c] s" by (auto simp: sublist_def)
  ultimately show "has_numeric_token s" by (auto simp: has_numeric_token_def)
qed

lemma first_number_None_token: "first_number s = None \<longleftrightarrow> \<not> has_numeric_token s"
  by (simp add: first_number_None has_numeric_token_iff)

lemma num_tail_split:
  "\<exists>dot fs. num_tail s = takeWhile is_digit s @ dot @ fs \<and> (dot = [] \<or> dot = ''.'') \<and>
     (\<forall>c \<in> set fs. is_digit c) \<and> prefix (num_tail s) s"
proof (cases "dropWhile is_digit s")
  case Nil
  have "num_tail s = takeWhile is_digit s @ [] @ []"
    unfolding num_tail_def Let_def Nil by simp
  moreover have "prefix (takeWhile is_digit s) s" by (metis prefixI takeWhile_dropWhile_id)
  ultimately show ?thesis by (metis append_Nil2 empty_iff list.set(1))
next
  case (Cons x r)
  have s: "s = takeWhile is_digit s @ x # r" by (metis Cons takeWhile_dropWhile_id)
  show ?thesis
  proof (cases "x = CHR ''.''")
    case True
    then have n: "num_tail s = takeWhile is_digit s @ ''.'' @ takeWhile is_digit r"
      unfolding num_tail_def Let_def Cons by simp
    have "prefix (takeWhile is_digit r) r" by (metis prefixI takeWhile_dropWhile_id)
    then have "prefix (takeWhile is_digit s @ ''.'' @ takeWhile is_digit r) (takeWhile is_digit s @ x # r)"
      using True by simp
    with s n have "prefix (num_tail s) s" by simp
    moreover have "\<forall>c \<in> set (takeWhile is_digit r). is_digit c" by (auto dest: set_takeWhileD)
    ultimately show ?thesis using n by blast
  next
    case False
    then have n: "num_tail s = takeWhile is_digit s @ [] @ []"
      unfolding num_tail_def Let_def Cons by simp
    moreover have "prefix (takeWhile is_digit s) s" by (metis prefixI takeWhile_dropWhile_id)
    ultimately show ?thesis by (metis append_Nil2 empty_iff list.set(1))
  qed
qed

lemma num_tail_token:
  assumes "is_digit c" and "sg = [] \<or> sg = ''-''"
  shows "numeric_token (sg @ num_tail (c # cs))"
proof -
  obtain dot fs where n: "num_tail (c # cs) = takeWhile is_digit (c # cs) @ dot @ fs"
    and d: "dot = [] \<or> dot = ''.''" and f: "\<forall>x \<in> set fs. is_digit x"
    using num_tail_split by blast
  have "takeWhile is_digit (c # cs) \<noteq> []" using assms(1) by simp
  moreover have "\<forall>x \<in> set (takeWhile is_digit (c # cs)). is_digit x"
    by (auto dest: set_takeWhileD)
  ultimately show ?thesis
    unfolding numeric_token_def n using assms(2) d f by blast
qed

lemma first_number_sound:
  "first_number s = Some tok \<Longrightarrow> numeric_token tok \<and> sublist tok s"
proof (induction s)
  case Nil
  then show ?case by simp
next
  case (Cons c cs)
  show ?case
  proof (cases "is_digit c")
    case True
    with Cons.prems have t: "tok = num_tail (c # cs)" by simp
    have "numeric_token ([] @ num_tail (c # cs))" using True by (intro num_tail_token) simp_all
    moreover have "prefix (num_tail (c # cs)) (c # cs)" using num_tail_split by blast
    ultimately show ?thesis using t by (auto simp: sublist_Cons_right)
  next
    case nd: False
    show ?thesis
    proof (cases "c = CHR ''-'' \<and> cs \<noteq> [] \<and> is_digit (hd cs)")
      case True
      then obtain d ds where cs: "cs = d # ds" and d: "is_digit d" by (cases cs) auto
      from Cons.prems nd True have t: "tok = c # num_tail cs" by simp
      have "numeric_token (''-'' @ num_tail (d # ds))" using d by (intro num_tail_token) simp_all
      moreover have "prefix (num_tail cs) cs" using num_tail_split by blast
      ultimately show ?thesis using t True cs by (auto simp: sublist_Cons_right)
    next
      case False
      with Cons nd show ?thesis by (auto simp: sublist_Cons_right)
    qed
  qed
qed

section \<open>Facts about the answer resolver\<close>

lemma dict_get_field: "is_obj plan \<Longrightarrow> dict_get plan k d = Inr (field plan k d)"
  by (cases plan) (simp_all add: field_def)

lemma py_iter_iterable: "iterable j \<Longrightarrow> \<exists>xs. py_iter j = Inr xs"
  by (cases j) simp_all

lemma execute_body_replied:
  assumes "well_formed_plan plan" and "replies e n c"
  shows "snd (execute_body e n plan q) =
          (case coerce_answer e plan (download e n 0 (plan_sources plan)) (plan_format plan) (strip c) of
             Inl x \<Rightarrow> Inl x | Inr v \<Rightarrow> Inr (Some v))"
proof -
  from assms(1) have obj: "is_obj plan" and it: "iterable (field plan ''data_sources'' (JArr []))"
    by (simp_all add: well_formed_plan_def)
  from it obtain xs where xs: "py_iter (field plan ''data_sources'' (JArr [])) = Inr xs"
    using py_iter_iterable by blast
  from assms(2) have ch: "chat e n AnswerSite = Inr (Some c)" and ne: "c \<noteq> []"
    by (simp_all add: replies_def)
  show ?thesis
    by (simp add: execute_body_def dict_get_field [OF obj] xs ch ne plan_sources_def plan_format_def
          Let_def split: sum.splits)
qed

lemma execute_replied:
  assumes "well_formed_plan plan" and "replies e n c"
  shows "snd (execute_solution_plan e n plan q) =
          (case coerce_answer e plan (download e n 0 (plan_sources plan)) (plan_format plan) (strip c) of
             Inl x \<Rightarrow> None | Inr v \<Rightarrow> Some v)"
  using execute_body_replied [OF assms, of q]
  by (cases "execute_body e n plan q") (auto simp: execute_solution_plan_def split: sum.splits)

lemma coerce_number:
  "coerce_answer e plan dl (JStr ''number'') t = Inr (number_answer t)"
  by (simp add: coerce_answer_def)

lemma coerce_boolean:
  "coerce_answer e plan dl (JStr ''boolean'') t =
     Inr (JBool (sublist ''true'' (lower t) \<or> sublist ''yes'' (lower t)))"
  by (simp add: coerce_answer_def py_in_sublist Let_def)

lemma coerce_json:
  "coerce_answer e plan dl (JStr ''json'') t = Inr (json_answer e t)"
  by (simp add: coerce_answer_def)

lemma not_chart_shape: "\<not> chart_shape ''number''" "\<not> chart_shape ''boolean''" "\<not> chart_shape ''json''"
  by (simp_all add: chart_shape_def py_in_sublist [symmetric]) code_simp+

lemma coerce_chart:
  "chart_shape f \<Longrightarrow> coerce_answer e plan dl (JStr f) t = Inr (chart_answer e plan dl t)"
  using not_chart_shape by (auto simp: coerce_answer_def chart_shape_def py_in_sublist)

lemma coerce_str: "\<exists>v. coerce_answer e plan dl (JStr f) t = Inr v"
  by (simp add: coerce_answer_def Let_def)

lemma coerce_not_str: "\<not> is_str fmt \<Longrightarrow> coerce_answer e plan dl fmt t = Inl AttributeError"
  by (cases fmt) (simp_all add: coerce_answer_def)

lemma number_fallback: "\<not> has_numeric_token t \<Longrightarrow> number_answer t = JStr t"
  using first_number_None_token [of t] by (simp add: number_answer_def)

lemma json_fallback: "no_json_found e t \<Longrightarrow> json_answer e t = JStr t"
  by (auto simp: no_json_found_def json_answer_def Let_def str_find_absent)

lemma chart_fallback:
  "is_obj plan \<Longrightarrow> no_chart_made e plan dl t \<Longrightarrow> chart_answer e plan dl t = JStr t"
  by (auto simp: no_chart_made_def chart_answer_def dict_get_field
           split: option.splits sum.splits)

lemma execute_body_not_well_formed:
  "\<not> well_formed_plan plan \<Longrightarrow> snd (execute_solution_plan e n plan q) = None"
proof (cases "is_obj plan")
  case False
  then show ?thesis by (cases plan) (simp_all add: execute_solution_plan_def execute_body_def)
next
  case True
  assume nwf: "\<not> well_formed_plan plan"
  show ?thesis
  proof (cases "iterable (field plan ''data_sources'' (JArr []))")
    case False
    then have "py_iter (field plan ''data_sources'' (JArr [])) = Inl TypeError"
      by (cases "field plan ''data_sources'' (JArr [])") simp_all
    then show ?thesis
      by (simp add: execute_solution_plan_def execute_body_def dict_get_field [OF True])
  next
    case it: True
    with nwf True have "\<not> is_str (plan_format plan)" by (simp add: well_formed_plan_def)
    then have "\<And>dl t. coerce_answer e plan dl (field plan ''answer_format'' (JStr ''string'')) t = Inl AttributeError"
      by (simp add: coerce_not_str plan_format_def)
    moreover from it obtain xs where "py_iter (field plan ''data_sources'' (JArr [])) = Inr xs"
      using py_iter_iterable by blast
    ultimately show ?thesis
      by (simp add: execute_solution_plan_def execute_body_def dict_get_field [OF True] Let_def
            split: sum.splits option.splits)
  qed
qed

lemma execute_no_reply:
  "no_reply e n \<Longrightarrow> snd (execute_solution_plan e n plan q) = None"
  by (auto simp: no_reply_def execute_solution_plan_def execute_body_def Let_def
           split: sum.splits option.splits)

lemma reply_cases: "no_reply e n \<or> (\<exists>c. replies e n c)"
  by (auto simp: no_reply_def replies_def split: sum.splits option.splits)

lemma scan_first_usable:
  "\<forall>d \<in> set (takeWhile (\<lambda>d. usable d = None) ds). \<not> is_raw d \<and> \<not> is_empty_dict d \<Longrightarrow>
   scan_items ds = Inr (first_usable ds)"
proof (induction ds rule: scan_items.induct)
  case (2 df_dict rest)
  have "frame_len df_dict > 0 \<Longrightarrow> df_dict \<noteq> []" by (auto simp: frame_len_def)
  with 2 show ?case by auto
next
  case (3 sheets rest)
  have "frame_len f > 0 \<Longrightarrow> f \<noteq> []" for f :: frame by (auto simp: frame_len_def)
  with 3 show ?case by (auto split: list.splits)
next
  case (4 json_data rest)
  then show ?case by (cases json_data) auto
qed auto

subsection \<open>The sample plan and environments\<close>

lemma sample_plan_well_formed: "well_formed_plan (sample_plan f t)"
  by (simp add: well_formed_plan_def sample_plan_def field_def plan_format_def)

lemma sample_plan_format: "plan_format (sample_plan f t) = JStr f"
  by (simp add: sample_plan_def field_def plan_format_def)

lemma sample_plan_sources:
  "plan_sources (sample_plan f t) = [JStr ''https://quiz.example/data.csv'']"
  by (simp add: sample_plan_def field_def plan_sources_def)

lemma asked_replies: "r \<noteq> [] \<Longrightarrow> replies (asked f r) n r"
  by (simp add: replies_def asked_def sample_env_def)

lemma asked_download: "download (asked f r) n 0 [JStr ''https://quiz.example/data.csv''] = [Csv sample_frame]"
  by (simp add: asked_def sample_env_def)

lemma no_token_na: "\<not> has_numeric_token '' n/a ''"
  by (simp add: has_numeric_token_iff is_digit_def)

lemma strip_na: "strip '' n/a '' = ''n/a''"
  by (simp add: strip_def is_space_def)

lemma sample_frame_len: "frame_len sample_frame = 2"
  by (simp add: frame_len_def sample_frame_def)

lemma failed_number:
  "coercion_failed (asked ''number'' '' n/a '') (sample_plan ''number'' ''/submit'')
     (download (asked ''number'' '' n/a '') 1 0 (plan_sources (sample_plan ''number'' ''/submit'')))
     ''number'' (strip '' n/a '')"
  by (simp add: coercion_failed_def strip_na has_numeric_token_iff is_digit_def)

lemma failed_json:
  "coercion_failed (asked ''json'' ''{broken}'') (sample_plan ''json'' ''/submit'')
     (download (asked ''json'' ''{broken}'') 1 0 (plan_sources (sample_plan ''json'' ''/submit'')))
     ''json'' (strip ''{broken}'')"
  by (simp add: coercion_failed_def no_json_found_def strip_def is_space_def str_rfind_def
        slice_def asked_def sample_env_def)

lemma failed_chart:
  "coercion_failed (asked ''base64_image'' ''a bar chart'') (sample_plan ''base64_image'' ''/submit'')
     (download (asked ''base64_image'' ''a bar chart'') 1 0
        (plan_sources (sample_plan ''base64_image'' ''/submit'')))
     ''base64_image'' (strip ''a bar chart'')"
  by (simp add: coercion_failed_def chart_shape_def no_chart_made_def sample_plan_sources
        asked_download prepare_chart_data_def sample_frame_len)
     (simp add: sample_frame_def sample_plan_def field_def create_chart_def asked_def sample_env_def)

lemma urlparse_quiz1:
  "urlparse (sample_env p r g) quiz1 = Some \<lparr>scheme = ''https'', netloc = ''quiz.example''\<rparr>"
  by (simp add: sample_env_def sample_urlparse_def quiz1_def)

section \<open>Coercion by declared shape\<close>

text \<open>
  Claim C3, as amended. For the declared shape \<open>number\<close> the token is parsed as a
  float when it contains a dot and as an integer otherwise: the reply
  \<open>Total: 3.14 units\<close> resolves to the float 3.14 and the reply \<open>The answer is 42\<close> to the
  integer 42; for every non-empty reply without numeric token the answer is the reply
  with the surrounding whitespace stripped.
\<close>

theorem number_shape_resolution:
  assumes "well_formed_plan plan" and "plan_format plan = JStr ''number''" and "replies e n c"
  shows "(c = ''Total: 3.14 units'' \<longrightarrow>
            snd (execute_solution_plan e n plan q) = Some (JFloat (314 / 100))) \<and>
         (c = ''The answer is 42'' \<longrightarrow>
            snd (execute_solution_plan e n plan q) = Some (JInt 42)) \<and>
         (\<not> has_numeric_token c \<longrightarrow>
            snd (execute_solution_plan e n plan q) = Some (JStr (strip c)))"
proof -
  have r: "snd (execute_solution_plan e n plan q) = Some (number_answer (strip c))"
    using execute_replied [OF assms(1,3), of q] by (simp add: assms(2) coerce_number)
  have a: "number_answer (strip ''Total: 3.14 units'') = JFloat (314 / 100)"
    by (simp add: strip_def is_space_def number_answer_def num_tail_def is_digit_def py_float_def
          digits_val_def)
  have b: "number_answer (strip ''The answer is 42'') = JInt 42"
    by (simp add: strip_def is_space_def number_answer_def num_tail_def is_digit_def py_int_def
          digits_val_def)
  have c: "number_answer (strip c) = JStr (strip c)" if "\<not> has_numeric_token c"
  proof -
    from that have "\<forall>x \<in> set (strip c). \<not> is_digit x"
      using strip_subset [of c] by (auto simp: has_numeric_token_iff)
    then have "first_number (strip c) = None" by (simp add: first_number_None)
    then show ?thesis by (simp add: number_answer_def)
  qed
  show ?thesis using r a b c by simp
qed

text \<open>
  The theorem at three replies to a plan that declares \<open>number\<close>.
\<close>

theorem number_shape_resolution_witness:
  "well_formed_plan (sample_plan ''number'' ''/submit'') \<and>
   plan_format (sample_plan ''number'' ''/submit'') = JStr ''number'' \<and>
   replies (asked ''number'' ''Total: 3.14 units'') 1 ''Total: 3.14 units'' \<and>
   snd (execute_solution_plan (asked ''number'' ''Total: 3.14 units'') 1
          (sample_plan ''number'' ''/submit'') quiz1) = Some (JFloat (314 / 100)) \<and>
   replies (asked ''number'' ''The answer is 42'') 1 ''The answer is 42'' \<and>
   snd (execute_solution_plan (asked ''number'' ''The answer is 42'') 1
          (sample_plan ''number'' ''/submit'') quiz1) = Some (JInt 42) \<and>
   replies (asked ''number'' '' n/a '') 1 '' n/a '' \<and> \<not> has_numeric_token '' n/a '' \<and>
   snd (execute_solution_plan (asked ''number'' '' n/a '') 1
          (sample_plan ''number'' ''/submit'') quiz1) = Some (JStr ''n/a'')"
proof -
  note wf = sample_plan_well_formed [of "''number''" "''/submit''"]
  note fm = sample_plan_format [of "''number''" "''/submit''"]
  have r1: "replies (asked ''number'' ''Total: 3.14 units'') 1 ''Total: 3.14 units''"
    and r2: "replies (asked ''number'' ''The answer is 42'') 1 ''The answer is 42''"
    and r3: "replies (asked ''number'' '' n/a '') 1 '' n/a ''"
    by (simp_all add: asked_replies)
  from number_shape_resolution [OF wf fm r1, of quiz1]
  have a: "snd (execute_solution_plan (asked ''number'' ''Total: 3.14 units'') 1
          (sample_plan ''number'' ''/submit'') quiz1) = Some (JFloat (314 / 100))"
    by simp
  from number_shape_resolution [OF wf fm r2, of quiz1]
  have b: "snd (execute_solution_plan (asked ''number'' ''The answer is 42'') 1
          (sample_plan ''number'' ''/submit'') quiz1) = Some (JInt 42)"
    by simp
  from number_shape_resolution [OF wf fm r3, of quiz1] no_token_na
  have c: "snd (execute_solution_plan (asked ''number'' '' n/a '') 1
          (sample_plan ''number'' ''/submit'') quiz1) = Some (JStr ''n/a'')"
    by (simp add: strip_na)
  from wf fm r1 r2 r3 a b c no_token_na show ?thesis by (simp only: simp_thms)
qed

text \<open>
  Claim C3 as stated fails twice. In \<open>The answer is 42.\<close> the token is \<open>42.\<close>, the
  final dot included, so the answer is the float 42 and not the integer; and the reply
  \<open> n/a \<close>, which has no numeric token, resolves to \<open>n/a\<close>, not to the reply itself.
\<close>

theorem number_shape_counterexample:
  "snd (execute_solution_plan (asked ''number'' ''The answer is 42.'') 1
          (sample_plan ''number'' ''/submit'') quiz1) = Some (JFloat 42) \<and>
   \<not> has_numeric_token '' n/a '' \<and>
   snd (execute_solution_plan (asked ''number'' '' n/a '') 1
          (sample_plan ''number'' ''/submit'') quiz1) = Some (JStr ''n/a'') \<and>
   JStr ''n/a'' \<noteq> JStr '' n/a ''"
proof -
  note wf = sample_plan_well_formed [of "''number''" "''/submit''"]
  have r1: "replies (asked ''number'' ''The answer is 42.'') 1 ''The answer is 42.''"
    and r2: "replies (asked ''number'' '' n/a '') 1 '' n/a ''"
    by (simp_all add: asked_replies)
  have n1: "number_answer (strip ''The answer is 42.'') = JFloat 42"
    by (simp add: strip_def is_space_def number_answer_def num_tail_def is_digit_def py_float_def
          digits_val_def)
  have n2: "number_answer (strip '' n/a '') = JStr ''n/a''"
    using number_fallback [of "''n/a''"] no_token_na
    by (simp add: strip_na has_numeric_token_iff)
  have a: "snd (execute_solution_plan (asked ''number'' ''The answer is 42.'') 1
          (sample_plan ''number'' ''/submit'') quiz1) = Some (JFloat 42)"
    using execute_replied [OF wf r1, of quiz1] by (simp add: sample_plan_format coerce_number n1)
  have b: "snd (execute_solution_plan (asked ''number'' '' n/a '') 1
          (sample_plan ''number'' ''/submit'') quiz1) = Some (JStr ''n/a'')"
    using execute_replied [OF wf r2, of quiz1] by (simp add: sample_plan_format coerce_number n2)
  have c: "JStr ''n/a'' \<noteq> JStr '' n/a ''" by simp
  from a b c no_token_na show ?thesis by (simp only: simp_thms)
qed

text \<open>
  Claim C6, as amended. For the declared shape \<open>boolean\<close> and a reply that is not
  empty, the answer is the truth value of: the lowercased reply contains \<open>true\<close> or
  contains \<open>yes\<close>. So \<open>Yes, that is correct\<close> resolves
  to true, and \<open>No\<close>, like every reply with neither word, to false. Stripping the reply
  first, as the source does, changes nothing.
\<close>

theorem boolean_shape_resolution:
  assumes "well_formed_plan plan" and "plan_format plan = JStr ''boolean''" and "replies e n c"
  shows "snd (execute_solution_plan e n plan q) =
           Some (JBool (sublist ''true'' (lower c) \<or> sublist ''yes'' (lower c))) \<and>
         (c = ''Yes, that is correct'' \<longrightarrow>
            snd (execute_solution_plan e n plan q) = Some (JBool True)) \<and>
         (c = ''No'' \<longrightarrow>
            snd (execute_solution_plan e n plan q) = Some (JBool False))"
proof -
  have ns: "\<forall>x \<in> set ''true''. \<not> is_space x" "\<forall>x \<in> set ''yes''. \<not> is_space x"
    by (simp_all add: is_space_def)
  have r: "snd (execute_solution_plan e n plan q) =
             Some (JBool (sublist ''true'' (lower c) \<or> sublist ''yes'' (lower c)))"
    using execute_replied [OF assms(1,3), of q] ns
    by (simp add: assms(2) coerce_boolean sublist_lower_strip)
  have a: "sublist ''yes'' (lower ''Yes, that is correct'')"
    unfolding py_in_sublist [symmetric] by code_simp
  have b: "\<not> (sublist ''true'' (lower ''No'') \<or> sublist ''yes'' (lower ''No''))"
    unfolding py_in_sublist [symmetric] by code_simp
  show ?thesis using r a b by auto
qed

text \<open>
  The theorem at the replies \<open>Yes, that is correct\<close> and \<open>No\<close>.
\<close>

theorem boolean_shape_resolution_witness:
  "well_formed_plan (sample_plan ''boolean'' ''/submit'') \<and>
   plan_format (sample_plan ''boolean'' ''/submit'') = JStr ''boolean'' \<and>
   replies (asked ''boolean'' ''Yes, that is correct'') 1 ''Yes, that is correct'' \<and>
   snd (execute_solution_plan (asked ''boolean'' ''Yes, that is correct'') 1
          (sample_plan ''boolean'' ''/submit'') quiz1) = Some (JBool True) \<and>
   replies (asked ''boolean'' ''No'') 1 ''No'' \<and>
   snd (execute_solution_plan (asked ''boolean'' ''No'') 1
          (sample_plan ''boolean'' ''/submit'') quiz1) = Some (JBool False)"
proof -
  note wf = sample_plan_well_formed [of "''boolean''" "''/submit''"]
  note fm = sample_plan_format [of "''boolean''" "''/submit''"]
  have r1: "replies (asked ''boolean'' ''Yes, that is correct'') 1 ''Yes, that is correct''"
    and r2: "replies (asked ''boolean'' ''No'') 1 ''No''"
    by (simp_all add: asked_replies)
  from boolean_shape_resolution [OF wf fm r1, of quiz1]
  have a: "snd (execute_solution_plan (asked ''boolean'' ''Yes, that is correct'') 1
          (sample_plan ''boolean'' ''/submit'') quiz1) = Some (JBool True)"
    by blast
  from boolean_shape_resolution [OF wf fm r2, of quiz1]
  have b: "snd (execute_solution_plan (asked ''boolean'' ''No'') 1
          (sample_plan ''boolean'' ''/submit'') quiz1) = Some (JBool False)"
    by blast
  from wf fm r1 r2 a b show ?thesis by (simp only: simp_thms)
qed

text \<open>
  Claim C6 as stated fails for the empty reply: it contains neither word, and the
  resolver returns \<open>None\<close> for it (lines 231 to 233), not false.
\<close>

theorem boolean_empty_reply_counterexample:
  "chat (asked ''boolean'' []) 1 AnswerSite = Inr (Some []) \<and>
   \<not> sublist ''true'' (lower []) \<and> \<not> sublist ''yes'' (lower []) \<and>
   snd (execute_solution_plan (asked ''boolean'' []) 1
          (sample_plan ''boolean'' ''/submit'') quiz1) = None"
proof -
  have c: "chat (asked ''boolean'' []) 1 AnswerSite = Inr (Some [])"
    by (simp add: asked_def sample_env_def)
  then have "no_reply (asked ''boolean'' []) 1" by (simp add: no_reply_def)
  then have "snd (execute_solution_plan (asked ''boolean'' []) 1
          (sample_plan ''boolean'' ''/submit'') quiz1) = None"
    by (rule execute_no_reply)
  with c show ?thesis by (simp add: lower_def)
qed

text \<open>
  On a plan that is a dict with data sources that can be iterated and a string as
  declared shape, a failed coercion of a non-empty reply (no numeric token for
  \<open>number\<close>; no braces or unparsable text for \<open>json\<close>; no usable data, no title or no
  chart for a chart shape) yields the stripped reply as the answer. The resolver returns
  \<open>None\<close> exactly when the plan is not of that kind, the client raises, or the reply is
  \<open>None\<close> or empty.
\<close>

lemma coercion_fallback:
  "(well_formed_plan plan \<and> replies e n c \<and> plan_format plan = JStr f \<and>
    coercion_failed e plan (download e n 0 (plan_sources plan)) f (strip c)
      \<longrightarrow> snd (execute_solution_plan e n plan q) = Some (JStr (strip c))) \<and>
   (snd (execute_solution_plan e n plan q) = None
      \<longleftrightarrow> \<not> well_formed_plan plan \<or> no_reply e n)"
proof (intro conjI impI)
  assume h: "well_formed_plan plan \<and> replies e n c \<and> plan_format plan = JStr f \<and>
    coercion_failed e plan (download e n 0 (plan_sources plan)) f (strip c)"
  then have obj: "is_obj plan" by (simp add: well_formed_plan_def)
  let ?dl = "download e n 0 (plan_sources plan)"
  from h have "coerce_answer e plan ?dl (JStr f) (strip c) = Inr (JStr (strip c))"
    unfolding coercion_failed_def
    by (auto simp: coerce_number coerce_json coerce_chart number_fallback json_fallback
          chart_fallback [OF obj])
  with h show "snd (execute_solution_plan e n plan q) = Some (JStr (strip c))"
    using execute_replied [of plan e n c q] by simp
next
  show "snd (execute_solution_plan e n plan q) = None \<longleftrightarrow> \<not> well_formed_plan plan \<or> no_reply e n"
  proof (cases "well_formed_plan plan")
    case False
    then show ?thesis by (simp add: execute_body_not_well_formed)
  next
    case True
    then obtain f where f: "plan_format plan = JStr f"
      by (cases "plan_format plan") (simp_all add: well_formed_plan_def)
    from reply_cases [of e n] show ?thesis
    proof
      assume "no_reply e n"
      then show ?thesis by (simp add: execute_no_reply)
    next
      assume "\<exists>c. replies e n c"
      then obtain c where c: "replies e n c" ..
      then have "\<not> no_reply e n" by (simp add: replies_def no_reply_def)
      moreover obtain v where "coerce_answer e plan (download e n 0 (plan_sources plan)) (JStr f) (strip c) = Inr v"
        using coerce_str by blast
      ultimately show ?thesis
        using execute_replied [OF True c, of q] True by (simp add: f)
    qed
  qed
qed

text \<open>
  The lemma at a failure of each kind, and at an empty reply.
\<close>

lemma coercion_fallback_samples:
  "well_formed_plan (sample_plan ''number'' ''/submit'') \<and>
   replies (asked ''number'' '' n/a '') 1 '' n/a '' \<and>
   coercion_failed (asked ''number'' '' n/a '') (sample_plan ''number'' ''/submit'')
     (download (asked ''number'' '' n/a '') 1 0 (plan_sources (sample_plan ''number'' ''/submit'')))
     ''number'' (strip '' n/a '') \<and>
   coercion_failed (asked ''json'' ''{broken}'') (sample_plan ''json'' ''/submit'')
     (download (asked ''json'' ''{broken}'') 1 0 (plan_sources (sample_plan ''json'' ''/submit'')))
     ''json'' (strip ''{broken}'') \<and>
   coercion_failed (asked ''base64_image'' ''a bar chart'')
     (sample_plan ''base64_image'' ''/submit'')
     (download (asked ''base64_image'' ''a bar chart'') 1 0
        (plan_sources (sample_plan ''base64_image'' ''/submit'')))
     ''base64_image'' (strip ''a bar chart'') \<and>
   snd (execute_solution_plan (asked ''number'' '' n/a '') 1
          (sample_plan ''number'' ''/submit'') quiz1) = Some (JStr ''n/a'') \<and>
   snd (execute_solution_plan (asked ''json'' ''{broken}'') 1
          (sample_plan ''json'' ''/submit'') quiz1) = Some (JStr ''{broken}'') \<and>
   snd (execute_solution_plan (asked ''base64_image'' ''a bar chart'') 1
          (sample_plan ''base64_image'' ''/submit'') quiz1) = Some (JStr ''a bar chart'') \<and>
   no_reply (asked ''number'' []) 1 \<and>
   snd (execute_solution_plan (asked ''number'' []) 1
          (sample_plan ''number'' ''/submit'') quiz1) = None"
proof -
  have s: "strip ''{broken}'' = ''{broken}''" "strip ''a bar chart'' = ''a bar chart''"
    by (simp_all add: strip_def is_space_def)
  have a: "snd (execute_solution_plan (asked ''number'' '' n/a '') 1
          (sample_plan ''number'' ''/submit'') quiz1) = Some (JStr ''n/a'')"
    using coercion_fallback [of "sample_plan ''number'' ''/submit''" "asked ''number'' '' n/a ''" 1
        "'' n/a ''" "''number''" quiz1] failed_number
    by (simp add: sample_plan_well_formed sample_plan_format asked_replies strip_na)
  have b: "snd (execute_solution_plan (asked ''json'' ''{broken}'') 1
          (sample_plan ''json'' ''/submit'') quiz1) = Some (JStr ''{broken}'')"
    using coercion_fallback [of "sample_plan ''json'' ''/submit''" "asked ''json'' ''{broken}''" 1
        "''{broken}''" "''json''" quiz1] failed_json
    by (simp add: sample_plan_well_formed sample_plan_format asked_replies s)
  have c: "snd (execute_solution_plan (asked ''base64_image'' ''a bar chart'') 1
          (sample_plan ''base64_image'' ''/submit'') quiz1) = Some (JStr ''a bar chart'')"
    using coercion_fallback [of "sample_plan ''base64_image'' ''/submit''"
        "asked ''base64_image'' ''a bar chart''" 1 "''a bar chart''" "''base64_image''" quiz1]
      failed_chart
    by (simp add: sample_plan_well_formed sample_plan_format asked_replies s)
  have d: "no_reply (asked ''number'' []) 1"
    by (simp add: no_reply_def asked_def sample_env_def)
  have e: "snd (execute_solution_plan (asked ''number'' []) 1
          (sample_plan ''number'' ''/submit'') quiz1) = None"
    using coercion_fallback [of "sample_plan ''number'' ''/submit''" "asked ''number'' []" 1
        "[]" "''number''" quiz1] d
    by blast
  have f: "well_formed_plan (sample_plan ''number'' ''/submit'')"
    "replies (asked ''number'' '' n/a '') 1 '' n/a ''"
    by (simp_all add: sample_plan_well_formed asked_replies)
  from a b c d e f failed_number failed_json failed_chart show ?thesis
    by (simp only: simp_thms)
qed

text \<open>
  Claim C8 fails on the code. The plan declares the shape \<open>null\<close> and the model replies
  \<open>42\<close>: no comparison at lines 238 to 252 matches, \<open>answer_format.lower()\<close> at line 263
  raises inside the resolver, and the outer \<open>except\<close> turns that into \<open>None\<close>, although
  the reply is not empty and no lower layer raised.
\<close>

theorem null_shape_resolves_to_none:
  "plan_format null_shape_plan = JNull \<and>
   chat null_shape_env 1 AnswerSite = Inr (Some ''42'') \<and>
   execute_solution_plan null_shape_env 1 null_shape_plan quiz1 =
     ([DataFetch 1 0 (JStr ''https://quiz.example/data.csv''), AnswerLLM 1], None)"
  by (simp add: plan_format_def field_def null_shape_plan_def null_shape_env_def sample_env_def
        execute_solution_plan_def execute_body_def coerce_answer_def Let_def)

section \<open>Chart data\<close>

text \<open>
  Claim C9, as amended. The resolver takes the first datum in list order that offers
  data that is not empty: a csv datum with at least one row, an excel datum whose first
  sheet has at least one row, or a json datum whose payload is a dict with at least one
  key. The kind gives no priority. This is stated for the lists in which neither a
  raw-text datum nor a json datum with an empty dict stands before that datum.
\<close>

theorem chart_data_first_in_order:
  "\<forall>d \<in> set (takeWhile (\<lambda>d. usable d = None) ds). \<not> is_raw d \<and> \<not> is_empty_dict d \<Longrightarrow>
   prepare_chart_data ds t = first_usable ds"
  by (cases ds) (simp_all add: prepare_chart_data_def scan_first_usable del: scan_items.simps)

text \<open>
  The theorem at a list where a pdf datum comes first and a raw text follows the
  chosen datum.
\<close>

theorem chart_data_first_in_order_witness:
  "takeWhile (\<lambda>d. usable d = None)
     [Pdf ''report'' [], JsonData (JObj [(''total'', JInt 3)]), RawText ''note'', Csv sample_frame] =
     [Pdf ''report'' []] \<and>
   \<not> is_raw (Pdf ''report'' []) \<and> \<not> is_empty_dict (Pdf ''report'' []) \<and>
   prepare_chart_data
     [Pdf ''report'' [], JsonData (JObj [(''total'', JInt 3)]), RawText ''note'', Csv sample_frame]
     ''bar chart'' = Some (Dict [(''total'', JInt 3)])"
proof -
  have t: "takeWhile (\<lambda>d. usable d = None)
     [Pdf ''report'' [], JsonData (JObj [(''total'', JInt 3)]), RawText ''note'', Csv sample_frame] =
     [Pdf ''report'' []]"
    by simp
  have h: "\<forall>d \<in> set (takeWhile (\<lambda>d. usable d = None)
        [Pdf ''report'' [], JsonData (JObj [(''total'', JInt 3)]), RawText ''note'', Csv sample_frame]).
      \<not> is_raw d \<and> \<not> is_empty_dict d"
    unfolding t by simp
  show ?thesis using t chart_data_first_in_order [OF h, of "''bar chart''"] by simp
qed

text \<open>
  Claim C9 as stated fails: with a json datum before a csv datum, both with data, the
  json dict is chosen; in the other order the csv frame is.
\<close>

theorem chart_data_kind_counterexample:
  "prepare_chart_data [JsonData (JObj [(''total'', JInt 3)]), Csv sample_frame] ''bar chart'' =
     Some (Dict [(''total'', JInt 3)]) \<and>
   prepare_chart_data [Csv sample_frame, JsonData (JObj [(''total'', JInt 3)])] ''bar chart'' =
     Some (Frame sample_frame)"
  by (simp add: prepare_chart_data_def sample_frame_len) (simp add: sample_frame_def)

section \<open>Repair of the submit URL\<close>

text \<open>
  Claim C4. A submit URL that starts with \<open>/\<close> is repaired to the scheme of the quiz
  URL, \<open>://\<close>, its network location (host, with port if any) and the submit URL, in this
  order.
\<close>

theorem repair_leading_slash:
  "startswith s ''/'' \<Longrightarrow> urlparse e quiz_url = Some parsed \<Longrightarrow>
   repair_submit_url e quiz_url (JStr s) = Inr (JStr (scheme parsed @ ''://'' @ netloc parsed @ s))"
  by (cases s) (auto simp: repair_submit_url_def startswith_def)

text \<open>
  The theorem at \<open>/submit\<close> for the quiz at \<open>https://quiz.example/demo\<close>.
\<close>

theorem repair_leading_slash_witness:
  "startswith ''/submit'' ''/'' \<and>
   urlparse steady_env quiz1 = Some \<lparr>scheme = ''https'', netloc = ''quiz.example''\<rparr> \<and>
   repair_submit_url steady_env quiz1 (JStr ''/submit'') = Inr (JStr ''https://quiz.example/submit'')"
proof -
  have a: "startswith ''/submit'' ''/''" by (simp add: startswith_def)
  have b: "urlparse steady_env quiz1 = Some \<lparr>scheme = ''https'', netloc = ''quiz.example''\<rparr>"
    unfolding steady_env_def by (rule urlparse_quiz1)
  show ?thesis using a b repair_leading_slash [OF a b] by simp
qed

text \<open>
  Claim C5, as amended. A submit URL that contains the placeholder and does not start
  with \<open>/\<close> is repaired to itself with every occurrence of the placeholder replaced by
  the network location of the quiz URL; when the result does not start with \<open>http\<close>, the
  scheme of the quiz URL and \<open>://\<close> are put in front.
\<close>

theorem repair_placeholder:
  "sublist placeholder s \<Longrightarrow> \<not> startswith s ''/'' \<Longrightarrow> urlparse e quiz_url = Some parsed \<Longrightarrow>
   repair_submit_url e quiz_url (JStr s) =
     Inr (JStr (let r = replace_str placeholder (netloc parsed) s
                in if startswith r ''http'' then r else scheme parsed @ ''://'' @ r))"
  by (cases s) (auto simp: repair_submit_url_def py_in_sublist Let_def placeholder_def)

text \<open>
  The theorem at a URL that needs the scheme and at one that has it.
\<close>

theorem repair_placeholder_witness:
  "sublist placeholder ''current-page-url/submit'' \<and> \<not> startswith ''current-page-url/submit'' ''/'' \<and>
   urlparse steady_env quiz1 = Some \<lparr>scheme = ''https'', netloc = ''quiz.example''\<rparr> \<and>
   repair_submit_url steady_env quiz1 (JStr ''current-page-url/submit'') =
     Inr (JStr ''https://quiz.example/submit'') \<and>
   sublist placeholder ''http://current-page-url/submit'' \<and>
   \<not> startswith ''http://current-page-url/submit'' ''/'' \<and>
   repair_submit_url steady_env quiz1 (JStr ''http://current-page-url/submit'') =
     Inr (JStr ''http://quiz.example/submit'')"
proof -
  have a: "sublist placeholder ''current-page-url/submit''"
    unfolding py_in_sublist [symmetric] placeholder_def by code_simp
  have a': "sublist placeholder ''http://current-page-url/submit''"
    unfolding py_in_sublist [symmetric] placeholder_def by code_simp
  have b: "\<not> startswith ''current-page-url/submit'' ''/''"
    and b': "\<not> startswith ''http://current-page-url/submit'' ''/''"
    by (simp_all add: startswith_def)
  have c: "urlparse steady_env quiz1 = Some \<lparr>scheme = ''https'', netloc = ''quiz.example''\<rparr>"
    unfolding steady_env_def by (rule urlparse_quiz1)
  show ?thesis
    using a a' b b' c repair_placeholder [OF a b c] repair_placeholder [OF a' b' c]
    by (simp add: placeholder_def startswith_def)
qed

text \<open>
  Claim C5 as stated fails for a URL that starts with \<open>/\<close>: that case comes first in the
  source, the placeholder is not replaced and is still in the repaired URL.
\<close>

theorem repair_placeholder_counterexample:
  "sublist placeholder ''/current-page-url/submit'' \<and>
   repair_submit_url steady_env quiz1 (JStr ''/current-page-url/submit'') =
     Inr (JStr ''https://quiz.example/current-page-url/submit'') \<and>
   replace_str placeholder (netloc \<lparr>scheme = ''https'', netloc = ''quiz.example''\<rparr>)
     ''/current-page-url/submit'' = ''/quiz.example/submit'' \<and>
   sublist placeholder ''https://quiz.example/current-page-url/submit''"
proof -
  have a: "sublist placeholder ''/current-page-url/submit''"
    "sublist placeholder ''https://quiz.example/current-page-url/submit''"
    unfolding py_in_sublist [symmetric] placeholder_def by code_simp+
  have b: "startswith ''/current-page-url/submit'' ''/''" by (simp add: startswith_def)
  have c: "urlparse steady_env quiz1 = Some \<lparr>scheme = ''https'', netloc = ''quiz.example''\<rparr>"
    unfolding steady_env_def by (rule urlparse_quiz1)
  have "repair_submit_url steady_env quiz1 (JStr ''/current-page-url/submit'') =
     Inr (JStr ''https://quiz.example/current-page-url/submit'')"
    using b c by (simp add: repair_submit_url_def placeholder_def)
  moreover have "replace_str placeholder (netloc \<lparr>scheme = ''https'', netloc = ''quiz.example''\<rparr>)
     ''/current-page-url/submit'' = ''/quiz.example/submit''"
    by (simp add: placeholder_def)
  ultimately show ?thesis using a by (simp only: simp_thms)
qed

text \<open>
  Claim C10. A non-empty submit URL that starts with \<open>http\<close> and does not contain the
  placeholder is left as it is.
\<close>

theorem repair_identity:
  "s \<noteq> [] \<Longrightarrow> startswith s ''http'' \<Longrightarrow> \<not> sublist placeholder s \<Longrightarrow>
   repair_submit_url e quiz_url (JStr s) = Inr (JStr s)"
  by (simp add: repair_submit_url_def py_in_sublist)

text \<open>
  The theorem at \<open>https://quiz.example/submit\<close>.
\<close>

theorem repair_identity_witness:
  "''https://quiz.example/submit'' \<noteq> [] \<and> startswith ''https://quiz.example/submit'' ''http'' \<and>
   \<not> sublist placeholder ''https://quiz.example/submit'' \<and>
   repair_submit_url steady_env quiz1 (JStr ''https://quiz.example/submit'') =
     Inr (JStr ''https://quiz.example/submit'')"
proof -
  have a: "''https://quiz.example/submit'' \<noteq> []" by simp
  have b: "startswith ''https://quiz.example/submit'' ''http''" by (simp add: startswith_def)
  have c: "\<not> sublist placeholder ''https://quiz.example/submit''"
    unfolding py_in_sublist [symmetric] placeholder_def by code_simp
  show ?thesis using a b c repair_identity [OF a b c, of steady_env quiz1] by simp
qed

section \<open>Facts about the chain controller\<close>

lemma download_calls_step: "c \<in> set (download_calls n i srcs) \<Longrightarrow> call_step c = n"
  by (induction srcs arbitrary: i) auto

lemma execute_body_calls_step:
  "execute_body e n plan q = (cs, r) \<Longrightarrow> c \<in> set cs \<Longrightarrow> call_step c = n"
  by (auto simp: execute_body_def Let_def dest: download_calls_step
           split: sum.splits option.splits if_splits)

lemma execute_calls_step:
  "execute_solution_plan e n plan q = (cs, r) \<Longrightarrow> c \<in> set cs \<Longrightarrow> call_step c = n"
  by (cases "execute_body e n plan q")
     (auto simp: execute_solution_plan_def split: sum.splits dest: execute_body_calls_step)

lemma analyze_calls_step:
  "analyze_and_solve e n content q = (cs, r) \<Longrightarrow> c \<in> set cs \<Longrightarrow> call_step c = n"
  by (auto simp: analyze_and_solve_def split: sum.splits option.splits if_splits prod.splits
           dest: execute_calls_step)

lemma fetch_calls_step:
  "fetch_quiz_page e n u = (cs, r) \<Longrightarrow> c \<in> set cs \<Longrightarrow> call_step c = n"
  by (auto simp: fetch_quiz_page_def split: option.splits if_splits prod.splits)

lemma solve_single_calls_step:
  "solve_single_quiz e n u = (cs, r) \<Longrightarrow> c \<in> set cs \<Longrightarrow> call_step c = n"
  by (auto simp: solve_single_quiz_def split: prod.splits option.splits if_splits
           dest: fetch_calls_step analyze_calls_step)

lemma solve_single_quiz_submitted:
  assumes "fetch_quiz_page e n u = (c1, Some content)" and "content \<noteq> []"
    and "analyze_and_solve e n content u = (c2, Some sol)" and "truthy (submit_url sol)"
    and "submit_answer e n (submit_url sol) u (answer sol) = response"
  shows "solve_single_quiz e n u =
           (c1 @ c2 @ [Submit n (submit_url sol)], next_of_response response)"
  unfolding solve_single_quiz_def assms(1)
  by (simp only: prod.case option.case assms(2) if_False assms(3) assms(4) not_True_eq_False
        assms(5))

lemma next_of_response_obj:
  "\<exists>v. next_of_response (JObj kvs) = Inr v \<and>
       (truthy v \<longleftrightarrow> truthy (field (JObj kvs) ''url'' JNull)) \<and>
       (truthy v \<longrightarrow> v = field (JObj kvs) ''url'' JNull)"
  by (auto simp: next_of_response_def field_def split: option.splits)

lemma chain_loop_exit:
  "\<not> (truthy u \<and> n < max_quizzes) \<Longrightarrow>
   chain_loop e u n tr =
     \<lparr>quiz_count = n, stop = (if truthy u then StepLimitReached else NoUrl), calls = tr\<rparr>"
  by (subst chain_loop.simps) auto

lemma chain_loop_time:
  "truthy u \<Longrightarrow> n < max_quizzes \<Longrightarrow> now e (Suc n) - now e 0 > 170 \<Longrightarrow>
   chain_loop e u n tr = \<lparr>quiz_count = n, stop = TimeLimitReached, calls = tr\<rparr>"
  by (subst chain_loop.simps) simp

lemma chain_loop_failed:
  "truthy u \<Longrightarrow> n < max_quizzes \<Longrightarrow> \<not> now e (Suc n) - now e 0 > 170 \<Longrightarrow>
   solve_single_quiz e (Suc n) u = (cs, Inl x) \<Longrightarrow>
   chain_loop e u n tr = \<lparr>quiz_count = Suc n, stop = Failed, calls = tr @ cs\<rparr>"
  by (subst chain_loop.simps) simp

lemma chain_loop_next:
  "truthy u \<Longrightarrow> n < max_quizzes \<Longrightarrow> \<not> now e (Suc n) - now e 0 > 170 \<Longrightarrow>
   solve_single_quiz e (Suc n) u = (cs, Inr v) \<Longrightarrow> truthy v \<Longrightarrow>
   chain_loop e u n tr = chain_loop e v (Suc n) (tr @ cs)"
  by (subst chain_loop.simps) simp

lemma chain_loop_completed:
  "truthy u \<Longrightarrow> n < max_quizzes \<Longrightarrow> \<not> now e (Suc n) - now e 0 > 170 \<Longrightarrow>
   solve_single_quiz e (Suc n) u = (cs, Inr v) \<Longrightarrow> \<not> truthy v \<Longrightarrow>
   chain_loop e u n tr = \<lparr>quiz_count = Suc n, stop = Completed, calls = tr @ cs\<rparr>"
  by (subst chain_loop.simps) simp

lemma sorted_constant: "\<forall>c \<in> set cs. f c = (k::nat) \<Longrightarrow> sorted (map f cs)"
  by (induction cs) auto

lemma trace_extend:
  assumes "sorted (map call_step tr)" and "\<forall>c \<in> set tr. 1 \<le> call_step c \<and> call_step c \<le> n"
    and "solve_single_quiz e (Suc n) u = (cs, r)"
  shows "sorted (map call_step (tr @ cs))"
    and "\<forall>c \<in> set (tr @ cs). 1 \<le> call_step c \<and> call_step c \<le> Suc n"
proof -
  have cs: "\<forall>c \<in> set cs. call_step c = Suc n"
    using solve_single_calls_step [OF assms(3)] by blast
  then have "sorted (map call_step cs)" by (rule sorted_constant)
  with assms(1,2) cs show "sorted (map call_step (tr @ cs))"
    by (auto simp: sorted_append)
  from assms(2) cs show "\<forall>c \<in> set (tr @ cs). 1 \<le> call_step c \<and> call_step c \<le> Suc n"
    by auto
qed

lemma chain_loop_inv:
  assumes "sorted (map call_step tr)" and "\<forall>c \<in> set tr. 1 \<le> call_step c \<and> call_step c \<le> n"
  shows "run_ok n (chain_loop e u n tr)"
  using assms
proof (induction k \<equiv> "max_quizzes - n" arbitrary: n u tr)
  case 0
  then have "\<not> (truthy u \<and> n < max_quizzes)" by simp
  from chain_loop_exit [OF this] 0 show ?case by (simp add: run_ok_def)
next
  case (Suc k)
  then have lt: "n < max_quizzes" by simp
  show ?case
  proof (cases "truthy u")
    case False
    then have "\<not> (truthy u \<and> n < max_quizzes)" by simp
    from chain_loop_exit [OF this] Suc.prems show ?thesis by (simp add: run_ok_def)
  next
    case True
    show ?thesis
    proof (cases "now e (Suc n) - now e 0 > 170")
      case True
      from chain_loop_time [OF \<open>truthy u\<close> lt True] Suc.prems lt show ?thesis
        by (simp add: run_ok_def)
    next
      case False
      obtain cs r where s: "solve_single_quiz e (Suc n) u = (cs, r)"
        by (cases "solve_single_quiz e (Suc n) u")
      note ext = trace_extend [OF Suc.prems s]
      show ?thesis
      proof (cases r)
        case (Inl x)
        from chain_loop_failed [OF \<open>truthy u\<close> lt False s [unfolded Inl]] ext lt
        show ?thesis by (simp add: run_ok_def)
      next
        case (Inr v)
        show ?thesis
        proof (cases "truthy v")
          case True
          have k: "k = max_quizzes - Suc n" using Suc.hyps(2) by simp
          have "run_ok (Suc n) (chain_loop e v (Suc n) (tr @ cs))"
            by (rule Suc.hyps(1) [OF k ext])
          with chain_loop_next [OF \<open>truthy u\<close> lt False s [unfolded Inr] True] lt
          show ?thesis by (auto simp: run_ok_def)
        next
          case nt: False
          from chain_loop_completed [OF \<open>truthy u\<close> lt False s [unfolded Inr] nt] ext lt
          show ?thesis by (simp add: run_ok_def)
        qed
      qed
    qed
  qed
qed

lemma chain_loop_count_ge: "n \<le> quiz_count (chain_loop e u n tr)"
proof (induction k \<equiv> "max_quizzes - n" arbitrary: n u tr)
  case 0
  then have "\<not> (truthy u \<and> n < max_quizzes)" by simp
  from chain_loop_exit [OF this] show ?case by simp
next
  case (Suc k)
  have k: "k = max_quizzes - Suc n" using Suc.hyps(2) by simp
  have "Suc n \<le> quiz_count (chain_loop e v (Suc n) t)" for v t
    by (rule Suc.hyps(1) [OF k])
  then have "n \<le> quiz_count (chain_loop e v (Suc n) t)" for v t
    by (rule Suc_leD)
  then show ?case
    by (subst chain_loop.simps) (simp split: prod.splits sum.splits)
qed

lemma own_steps_next_closed:
  assumes "\<And>n u. u \<in> S \<Longrightarrow>
             \<exists>cs v. solve_single_quiz e n u = (cs, Inr v) \<and> truthy v \<and> v \<in> S"
    and "u \<in> S"
  shows "own_steps_next e u n"
  using assms(2)
proof (induction k \<equiv> "max_quizzes - n" arbitrary: n u)
  case 0
  then show ?case by (subst own_steps_next.simps) simp
next
  case (Suc k)
  from assms(1) [OF Suc.prems, of "Suc n"] obtain cs v
    where s: "solve_single_quiz e (Suc n) u = (cs, Inr v)" and v: "truthy v" "v \<in> S"
    by blast
  have k: "k = max_quizzes - Suc n" using Suc.hyps(2) by simp
  have "own_steps_next e v (Suc n)" by (rule Suc.hyps(1) [OF k v(2)])
  with s v(1) show ?case by (subst own_steps_next.simps) simp
qed

lemma own_steps_next_step:
  assumes "own_steps_next e u n" and "n < max_quizzes"
  obtains cs v where "solve_single_quiz e (Suc n) u = (cs, Inr v)" and "truthy v"
    and "own_steps_next e v (Suc n)"
proof -
  obtain cs r where s: "solve_single_quiz e (Suc n) u = (cs, r)"
    by (cases "solve_single_quiz e (Suc n) u")
  from assms have "case solve_single_quiz e (Suc n) u of
           (cs, Inl x) \<Rightarrow> False
         | (cs, Inr v) \<Rightarrow> truthy v \<and> own_steps_next e v (Suc n)"
    by (subst (asm) own_steps_next.simps) simp
  with s obtain v where "r = Inr v" "truthy v" "own_steps_next e v (Suc n)"
    by (cases r) simp_all
  with s that show thesis by blast
qed

lemma chain_loop_all_next:
  assumes "within_budget e"
  shows "own_steps_next e u n \<Longrightarrow> truthy u \<Longrightarrow> n \<le> max_quizzes \<Longrightarrow>
         quiz_count (chain_loop e u n tr) = max_quizzes \<and>
         stop (chain_loop e u n tr) = StepLimitReached"
proof (induction k \<equiv> "max_quizzes - n" arbitrary: n u tr)
  case 0
  then have "\<not> (truthy u \<and> n < max_quizzes)" "n = max_quizzes" by simp_all
  from chain_loop_exit [OF this(1)] this(2) 0 show ?case by simp
next
  case (Suc k)
  then have lt: "n < max_quizzes" by simp
  from assms lt have t: "\<not> now e (Suc n) - now e 0 > 170" by (simp add: within_budget_def)
  from Suc.prems(1) lt obtain cs v where s: "solve_single_quiz e (Suc n) u = (cs, Inr v)"
    and v: "truthy v" and nx: "own_steps_next e v (Suc n)"
    by (rule own_steps_next_step)
  have k: "k = max_quizzes - Suc n" using Suc.hyps(2) by simp
  from lt have le: "Suc n \<le> max_quizzes" by simp
  show ?case
    unfolding chain_loop_next [OF Suc.prems(2) lt t s v]
    by (rule Suc.hyps(1) [OF k nx v le])
qed

subsection \<open>The sample chains\<close>

lemma answer_42: "number_answer (strip ''The answer is 42'') = JInt 42"
  by (simp add: strip_def is_space_def number_answer_def num_tail_def is_digit_def py_int_def
        digits_val_def)

lemma sample_fetch:
  "fetch_quiz_page (sample_env p r g) n u = ([Browser n u], Some ''<html>quiz</html>'')"
  by (simp add: fetch_quiz_page_def sample_env_def)

lemma sample_analyze:
  "analyze_and_solve (sample_env (sample_plan ''number'' ''https://quiz.example/submit'') ''The answer is 42'' g) n c u =
     ([PlanLLM n, DataFetch n 0 (JStr ''https://quiz.example/data.csv''), AnswerLLM n],
      Some \<lparr>submit_url = JStr ''https://quiz.example/submit'', answer = JInt 42\<rparr>)"
  by (simp add: sample_env_def analyze_and_solve_def
        parse_plan_def execute_solution_plan_def execute_body_def sample_plan_def
        repair_submit_url_def startswith_def placeholder_def
        coerce_answer_def Let_def answer_42)

lemma sample_submit: "submit_answer (sample_env p r g) n s u a = g"
  by (simp add: submit_answer_def sample_env_def)

lemma steady_fetch: "fetch_quiz_page steady_env n u = ([Browser n u], Some ''<html>quiz</html>'')"
  unfolding steady_env_def by (rule sample_fetch)

lemma final_fetch: "fetch_quiz_page final_env n u = ([Browser n u], Some ''<html>quiz</html>'')"
  unfolding final_env_def by (rule sample_fetch)

lemma steady_analyze:
  "analyze_and_solve steady_env n c u =
     ([PlanLLM n, DataFetch n 0 (JStr ''https://quiz.example/data.csv''), AnswerLLM n],
      Some \<lparr>submit_url = JStr ''https://quiz.example/submit'', answer = JInt 42\<rparr>)"
  unfolding steady_env_def by (rule sample_analyze)

lemma final_analyze:
  "analyze_and_solve final_env n c u =
     ([PlanLLM n, DataFetch n 0 (JStr ''https://quiz.example/data.csv''), AnswerLLM n],
      Some \<lparr>submit_url = JStr ''https://quiz.example/submit'', answer = JInt 42\<rparr>)"
  unfolding final_env_def by (rule sample_analyze)

lemma steady_step:
  "solve_single_quiz (sample_env (sample_plan ''number'' ''https://quiz.example/submit'') ''The answer is 42'' g\<lparr>now := clock\<rparr>) n u =
     ([Browser n u, PlanLLM n, DataFetch n 0 (JStr ''https://quiz.example/data.csv''), AnswerLLM n,
       Submit n (JStr ''https://quiz.example/submit'')], next_of_response g)"
  by (simp add: solve_single_quiz_def fetch_quiz_page_def sample_env_def analyze_and_solve_def
        parse_plan_def execute_solution_plan_def execute_body_def sample_plan_def
        repair_submit_url_def startswith_def submit_answer_def placeholder_def
        coerce_answer_def Let_def)

lemma next_of_grading_next: "next_of_response grading_next = Inr (JStr ''https://quiz.example/next'')"
  by (simp add: next_of_response_def grading_next_def)

lemma slow_first_check: "\<not> now slow_env (Suc 0) - now slow_env 0 > 170"
  by (simp add: slow_env_def)

lemma slow_second_check: "now slow_env (Suc (Suc 0)) - now slow_env 0 > 170"
  by (simp add: slow_env_def)

lemma slow_step:
  "solve_single_quiz slow_env n u =
     ([Browser n u, PlanLLM n, DataFetch n 0 (JStr ''https://quiz.example/data.csv''), AnswerLLM n,
       Submit n (JStr ''https://quiz.example/submit'')], Inr (JStr ''https://quiz.example/next''))"
  unfolding slow_env_def steady_env_def steady_step next_of_grading_next ..

lemma slow_own_steps: "own_steps_next slow_env u n"
  by (rule own_steps_next_closed [where S = UNIV]) (simp_all add: slow_step)

lemma picky_step:
  assumes "u = JStr ''https://quiz.example/demo'' \<or> u = JStr ''https://quiz.example/next''"
  shows "solve_single_quiz picky_env n u =
     ([Browser n u, PlanLLM n, DataFetch n 0 (JStr ''https://quiz.example/data.csv''), AnswerLLM n,
       Submit n (JStr ''https://quiz.example/submit'')], Inr (JStr ''https://quiz.example/next''))"
proof -
  have f: "fetch_quiz_page picky_env n u = ([Browser n u], Some ''<html>quiz</html>'')"
    using assms by (auto simp: fetch_quiz_page_def picky_env_def)
  have a: "analyze_and_solve picky_env n c u =
     ([PlanLLM n, DataFetch n 0 (JStr ''https://quiz.example/data.csv''), AnswerLLM n],
      Some \<lparr>submit_url = JStr ''https://quiz.example/submit'', answer = JInt 42\<rparr>)" for c
    by (simp add: picky_env_def steady_env_def sample_env_def analyze_and_solve_def
          parse_plan_def execute_solution_plan_def execute_body_def sample_plan_def
          repair_submit_url_def startswith_def placeholder_def coerce_answer_def Let_def
          answer_42)
  have p: "submit_answer picky_env n s u a = grading_next" for s a
    by (simp add: submit_answer_def picky_env_def steady_env_def sample_env_def)
  have "solve_single_quiz picky_env n u =
     ([Browser n u] @
      [PlanLLM n, DataFetch n 0 (JStr ''https://quiz.example/data.csv''), AnswerLLM n] @
      [Submit n (submit_url \<lparr>submit_url = JStr ''https://quiz.example/submit'',
                              answer = JInt 42\<rparr>)],
      next_of_response grading_next)"
    by (rule solve_single_quiz_submitted [OF f _ a _ p]) simp_all
  then show ?thesis by (simp add: next_of_grading_next)
qed

lemma picky_own_steps: "own_steps_next picky_env quiz1 0"
  by (rule own_steps_next_closed
        [where S = "{JStr ''https://quiz.example/demo'', JStr ''https://quiz.example/next''}"])
     (auto simp: picky_step quiz1_def)

lemma picky_within_budget: "within_budget picky_env"
  by (simp add: within_budget_def picky_env_def steady_env_def sample_env_def max_quizzes_def)

lemma picky_elsewhere:
  "fetch_quiz_page picky_env n (JStr ''https://elsewhere.example/'') =
     ([Browser n (JStr ''https://elsewhere.example/''),
       HttpGet n (JStr ''https://elsewhere.example/'')], None)"
  by (simp add: fetch_quiz_page_def picky_env_def steady_env_def sample_env_def)

section \<open>Step limit, time budget and continuation\<close>

text \<open>
  Claim C1, as amended. When every step that a chain started at a non-empty URL makes
  comes back with a next URL and every time check passes, the loop makes exactly 20
  steps and stops because the step limit is reached. In every run the counter ends at
  20 at most, it is never below the value it had at an earlier iteration, and the step
  numbers of the calls of the run never decrease and lie between 1 and the final
  counter.
\<close>

theorem chain_runs_to_step_limit:
  "(own_steps_next e u 0 \<and> within_budget e \<and> truthy u \<longrightarrow>
      quiz_count (solve_quiz_chain e u) = 20 \<and> stop (solve_quiz_chain e u) = StepLimitReached) \<and>
   quiz_count (solve_quiz_chain e u) \<le> 20 \<and>
   n \<le> quiz_count (chain_loop e u n tr) \<and>
   sorted (map call_step (calls (solve_quiz_chain e u))) \<and>
   (\<forall>c \<in> set (calls (solve_quiz_chain e u)).
      1 \<le> call_step c \<and> call_step c \<le> quiz_count (solve_quiz_chain e u))"
proof -
  have "run_ok 0 (chain_loop e u 0 [])" by (rule chain_loop_inv) simp_all
  moreover have "quiz_count (chain_loop e u 0 []) = max_quizzes \<and>
      stop (chain_loop e u 0 []) = StepLimitReached"
    if "own_steps_next e u 0" "within_budget e" "truthy u"
    using that by (intro chain_loop_all_next) simp_all
  ultimately show ?thesis
    using chain_loop_count_ge [of n e u tr]
    by (auto simp: solve_quiz_chain_def run_ok_def max_quizzes_def)
qed

text \<open>
  The theorem at the chain on the server that serves only its own pages: a page outside
  the chain cannot be fetched, and the chain runs its 20 steps.
\<close>

theorem chain_runs_to_step_limit_witness:
  "own_steps_next picky_env quiz1 0 \<and> within_budget picky_env \<and> truthy quiz1 \<and>
   fetch_quiz_page picky_env 1 (JStr ''https://elsewhere.example/'') =
     ([Browser 1 (JStr ''https://elsewhere.example/''),
       HttpGet 1 (JStr ''https://elsewhere.example/'')], None) \<and>
   quiz_count (solve_quiz_chain picky_env quiz1) = 20 \<and>
   stop (solve_quiz_chain picky_env quiz1) = StepLimitReached"
proof -
  have "truthy quiz1" by (simp add: quiz1_def)
  with picky_own_steps picky_within_budget picky_elsewhere [of 1]
    chain_runs_to_step_limit [of picky_env quiz1 0 "[]"]
  show ?thesis by simp
qed

text \<open>
  Claim C1 as stated fails: in the sample chain with a clock that advances 100 seconds
  per reading, every step comes back with a next URL, and the loop stops at the second
  time check, after one step.
\<close>

theorem chain_cut_by_time_counterexample:
  "own_steps_next slow_env quiz1 0 \<and> truthy quiz1 \<and>
   quiz_count (solve_quiz_chain slow_env quiz1) = 1 \<and>
   stop (solve_quiz_chain slow_env quiz1) = TimeLimitReached"
proof -
  have q: "truthy quiz1" by (simp add: quiz1_def)
  have n: "truthy (JStr ''https://quiz.example/next'')" by simp
  have l0: "0 < max_quizzes" and l1: "Suc 0 < max_quizzes" by (simp_all add: max_quizzes_def)
  have "chain_loop slow_env quiz1 0 [] =
          \<lparr>quiz_count = Suc 0, stop = TimeLimitReached,
            calls = [] @ [Browser (Suc 0) quiz1, PlanLLM (Suc 0),
              DataFetch (Suc 0) 0 (JStr ''https://quiz.example/data.csv''), AnswerLLM (Suc 0),
              Submit (Suc 0) (JStr ''https://quiz.example/submit'')]\<rparr>"
    unfolding chain_loop_next [OF q l0 slow_first_check slow_step n]
    by (rule chain_loop_time [OF n l1 slow_second_check])
  with slow_own_steps [of quiz1 0] q show ?thesis by (simp add: solve_quiz_chain_def)
qed

text \<open>
  Claim C2. When the time check at the start of an iteration finds more than 170
  seconds elapsed, the loop ends there: the calls of the run are those made before, none
  is added, and the counter is not advanced. \<open>tr\<close> is the list of the calls made so far.
\<close>

theorem time_check_stops_before_work:
  "now e (Suc n) - now e 0 > 170 \<Longrightarrow>
   calls (chain_loop e u n tr) = tr \<and> quiz_count (chain_loop e u n tr) = n \<and>
   (truthy u \<and> n < max_quizzes \<longrightarrow> stop (chain_loop e u n tr) = TimeLimitReached)"
  by (subst (1 2 3) chain_loop.simps) simp

text \<open>
  The theorem at the second iteration of the chain with the slow clock.
\<close>

theorem time_check_stops_before_work_witness:
  "now slow_env (Suc 1) - now slow_env 0 > 170 \<and>
   calls (chain_loop slow_env (JStr ''https://quiz.example/next'') 1
            [Browser 1 quiz1, PlanLLM 1, DataFetch 1 0 (JStr ''https://quiz.example/data.csv''),
             AnswerLLM 1, Submit 1 (JStr ''https://quiz.example/submit'')]) =
     [Browser 1 quiz1, PlanLLM 1, DataFetch 1 0 (JStr ''https://quiz.example/data.csv''),
      AnswerLLM 1, Submit 1 (JStr ''https://quiz.example/submit'')] \<and>
   quiz_count (chain_loop slow_env (JStr ''https://quiz.example/next'') 1
            [Browser 1 quiz1, PlanLLM 1, DataFetch 1 0 (JStr ''https://quiz.example/data.csv''),
             AnswerLLM 1, Submit 1 (JStr ''https://quiz.example/submit'')]) = 1 \<and>
   stop (chain_loop slow_env (JStr ''https://quiz.example/next'') 1
            [Browser 1 quiz1, PlanLLM 1, DataFetch 1 0 (JStr ''https://quiz.example/data.csv''),
             AnswerLLM 1, Submit 1 (JStr ''https://quiz.example/submit'')]) = TimeLimitReached"
proof -
  have h: "now slow_env (Suc 1) - now slow_env 0 > 170" by (simp add: slow_env_def)
  show ?thesis
    using h time_check_stops_before_work [OF h, of "JStr ''https://quiz.example/next''"
        "[Browser 1 quiz1, PlanLLM 1, DataFetch 1 0 (JStr ''https://quiz.example/data.csv''),
          AnswerLLM 1, Submit 1 (JStr ''https://quiz.example/submit'')]"]
    by (simp add: max_quizzes_def)
qed

text \<open>
  Claim C7. When a step has run up to a submission that the grader answered with a
  dict, the loop goes on with the \<open>url\<close> of that response as the current URL if there is
  one, whatever \<open>correct\<close> says, and stops as completed if there is none. In particular
  a chain whose first response names no next URL stops after exactly one step.
\<close>

theorem chain_follows_next_url:
  assumes "truthy u" and "n < max_quizzes" and "\<not> now e (Suc n) - now e 0 > 170"
    and "fetch_quiz_page e (Suc n) u = (c1, Some content)" and "content \<noteq> []"
    and "analyze_and_solve e (Suc n) content u = (c2, Some sol)" and "truthy (submit_url sol)"
    and "submit_answer e (Suc n) (submit_url sol) u (answer sol) = JObj kvs"
  shows "(truthy (field (JObj kvs) ''url'' JNull) \<longrightarrow>
            chain_loop e u n tr =
              chain_loop e (field (JObj kvs) ''url'' JNull) (Suc n)
                (tr @ c1 @ c2 @ [Submit (Suc n) (submit_url sol)])) \<and>
         (\<not> truthy (field (JObj kvs) ''url'' JNull) \<longrightarrow>
            chain_loop e u n tr =
              \<lparr>quiz_count = Suc n, stop = Completed,
                calls = tr @ c1 @ c2 @ [Submit (Suc n) (submit_url sol)]\<rparr>) \<and>
         (\<not> truthy (field (JObj kvs) ''url'' JNull) \<and> n = 0 \<longrightarrow>
            quiz_count (solve_quiz_chain e u) = 1 \<and> stop (solve_quiz_chain e u) = Completed)"
proof -
  let ?cs = "c1 @ c2 @ [Submit (Suc n) (submit_url sol)]"
  let ?url = "field (JObj kvs) ''url'' JNull"
  obtain v where v: "next_of_response (JObj kvs) = Inr v" "truthy v \<longleftrightarrow> truthy ?url"
    "truthy v \<longrightarrow> v = ?url"
    using next_of_response_obj by blast
  have s: "solve_single_quiz e (Suc n) u = (?cs, Inr v)"
    using solve_single_quiz_submitted [OF assms(4-8)] v(1) by (simp only:)
  have a: "chain_loop e u n tr = chain_loop e ?url (Suc n) (tr @ ?cs)" if "truthy ?url"
  proof -
    from that v have "truthy v" "v = ?url" by blast+
    with chain_loop_next [OF assms(1-3) s, of tr] show ?thesis by (simp only:)
  qed
  have b: "chain_loop e u n t = \<lparr>quiz_count = Suc n, stop = Completed, calls = t @ ?cs\<rparr>"
    if "\<not> truthy ?url" for t
  proof -
    from that v have "\<not> truthy v" by blast
    then show ?thesis by (rule chain_loop_completed [OF assms(1-3) s])
  qed
  have c: "quiz_count (solve_quiz_chain e u) = 1 \<and> stop (solve_quiz_chain e u) = Completed"
    if "\<not> truthy ?url" "n = 0"
    using b [OF that(1), of "[]"] that(2) unfolding solve_quiz_chain_def by (simp only: chain_result.simps One_nat_def simp_thms)
  from a b c show ?thesis by blast
qed

text \<open>
  The theorem at the first step of the sample chain, where the answer is graded wrong
  and a next URL is given, and at the chain whose grader names no next quiz.
\<close>

theorem chain_follows_next_url_witness:
  "truthy quiz1 \<and> 0 < max_quizzes \<and>
   \<not> now steady_env (Suc 0) - now steady_env 0 > 170 \<and>
   \<not> now final_env (Suc 0) - now final_env 0 > 170 \<and>
   fetch_quiz_page steady_env (Suc 0) quiz1 = ([Browser (Suc 0) quiz1], Some ''<html>quiz</html>'') \<and>
   analyze_and_solve steady_env (Suc 0) ''<html>quiz</html>'' quiz1 =
     ([PlanLLM (Suc 0), DataFetch (Suc 0) 0 (JStr ''https://quiz.example/data.csv''),
       AnswerLLM (Suc 0)],
      Some \<lparr>submit_url = JStr ''https://quiz.example/submit'', answer = JInt 42\<rparr>) \<and>
   submit_answer steady_env (Suc 0) (JStr ''https://quiz.example/submit'') quiz1 (JInt 42) =
     JObj [(''correct'', JBool False), (''reason'', JStr ''wrong''),
           (''url'', JStr ''https://quiz.example/next'')] \<and>
   submit_answer final_env (Suc 0) (JStr ''https://quiz.example/submit'') quiz1 (JInt 42) =
     JObj [(''correct'', JBool True)] \<and>
   chain_loop steady_env quiz1 0 [] =
     chain_loop steady_env (JStr ''https://quiz.example/next'') 1
       [Browser 1 quiz1, PlanLLM 1, DataFetch 1 0 (JStr ''https://quiz.example/data.csv''),
        AnswerLLM 1, Submit 1 (JStr ''https://quiz.example/submit'')] \<and>
   solve_quiz_chain final_env quiz1 =
     \<lparr>quiz_count = 1, stop = Completed,
       calls = [Browser 1 quiz1, PlanLLM 1, DataFetch 1 0 (JStr ''https://quiz.example/data.csv''),
        AnswerLLM 1, Submit 1 (JStr ''https://quiz.example/submit'')]\<rparr>"
proof -
  have q: "truthy quiz1" by (simp add: quiz1_def)
  have l: "0 < max_quizzes" by (simp add: max_quizzes_def)
  have c: "''<html>quiz</html>'' \<noteq> []" by simp
  have t: "truthy (submit_url \<lparr>submit_url = JStr ''https://quiz.example/submit'', answer = JInt 42\<rparr>)"
    by simp
  have t1: "\<not> now steady_env (Suc 0) - now steady_env 0 > 170"
    by (simp add: steady_env_def sample_env_def)
  have t2: "\<not> now final_env (Suc 0) - now final_env 0 > 170"
    by (simp add: final_env_def sample_env_def)
  have g1: "submit_answer steady_env (Suc 0) (submit_url \<lparr>submit_url = JStr ''https://quiz.example/submit'', answer = JInt 42\<rparr>) quiz1
      (answer \<lparr>submit_url = JStr ''https://quiz.example/submit'', answer = JInt 42\<rparr>) = 
    JObj [(''correct'', JBool False), (''reason'', JStr ''wrong''),
           (''url'', JStr ''https://quiz.example/next'')]"
    unfolding steady_env_def sample_submit by (simp add: grading_next_def)
  have g2: "submit_answer final_env (Suc 0) (submit_url \<lparr>submit_url = JStr ''https://quiz.example/submit'', answer = JInt 42\<rparr>) quiz1
      (answer \<lparr>submit_url = JStr ''https://quiz.example/submit'', answer = JInt 42\<rparr>) = 
    JObj [(''correct'', JBool True)]"
    unfolding final_env_def sample_submit by (simp add: grading_last_def)
  note w1 = chain_follows_next_url [OF q l t1 steady_fetch c steady_analyze t g1, of "[]"]
  note w2 = chain_follows_next_url [OF q l t2 final_fetch c final_analyze t g2, of "[]"]
  have u1: "field (JObj [(''correct'', JBool False), (''reason'', JStr ''wrong''),
           (''url'', JStr ''https://quiz.example/next'')]) ''url'' JNull = JStr ''https://quiz.example/next''"
    by (simp add: field_def)
  have u2: "field (JObj [(''correct'', JBool True)]) ''url'' JNull = JNull"
    by (simp add: field_def)
  from w1 have "chain_loop steady_env quiz1 0 [] =
     chain_loop steady_env (JStr ''https://quiz.example/next'') 1
       [Browser 1 quiz1, PlanLLM 1, DataFetch 1 0 (JStr ''https://quiz.example/data.csv''),
        AnswerLLM 1, Submit 1 (JStr ''https://quiz.example/submit'')]"
    unfolding u1 by (simp del: chain_loop.simps)
  moreover from w2 have "solve_quiz_chain final_env quiz1 =
     \<lparr>quiz_count = 1, stop = Completed,
       calls = [Browser 1 quiz1, PlanLLM 1, DataFetch 1 0 (JStr ''https://quiz.example/data.csv''),
        AnswerLLM 1, Submit 1 (JStr ''https://quiz.example/submit'')]\<rparr>"
    unfolding u2 solve_quiz_chain_def by (simp del: chain_loop.simps)
  moreover have "submit_answer steady_env (Suc 0) (JStr ''https://quiz.example/submit'') quiz1
      (JInt 42) = JObj [(''correct'', JBool False), (''reason'', JStr ''wrong''),
           (''url'', JStr ''https://quiz.example/next'')]"
    using g1 by simp
  moreover have "submit_answer final_env (Suc 0) (JStr ''https://quiz.example/submit'') quiz1
      (JInt 42) = JObj [(''correct'', JBool True)]"
    using g2 by simp
  ultimately show ?thesis
    using q l t1 t2 steady_fetch [of "Suc 0" quiz1]
      steady_analyze [of "Suc 0" "''<html>quiz</html>''" quiz1]
    by (simp only: simp_thms)
qed

end
